theory Spec2Isabelle
  imports Main "HOL-Library.Word"
begin

section \<open>Errors, streams and the world outside a command\<close>

text \<open>
  Go's \<open>error\<close> values as a datatype; a nil error is \<open>None\<close> of \<open>error option\<close>.
  \<^item> \<open>ErrorString msg\<close> is \<open>errors.New(msg)\<close>;
  \<^item> \<open>ExitError ec stderr\<close> is \<open>&ExitError{ExitCode: ec, Stderr: stderr}\<close> (the type is
    declared outside the files at hand; its two fields are the ones the code assigns);
  \<^item> \<open>ErrNotFound\<close> is containerd's \<open>errdefs.ErrNotFound\<close>;
  \<^item> \<open>Errorf prefix e\<close> is \<open>fmt.Errorf("prefix: %w", e)\<close>, an error wrapping \<open>e\<close>.
\<close>

datatype error =
    ErrorString string
  | ExitError int string
  | ErrNotFound
  | Errorf string error

text \<open>
  A call either returns or panics (a nil dereference inside a strategy); a panic unwinds
  through the caller, running its deferred calls.
\<close>

datatype 'a outcome = Return 'a | Panic

text \<open>
  \<open>io.Reader\<close> and \<open>io.Writer\<close> values by identity: the package's \<open>empty\<close> reader,
  \<open>ioutil.Discard\<close>, a \<open>bytes.Buffer\<close> allocated by the library, the two ends of an
  \<open>io.Pipe()\<close>, and streams the caller brought.
\<close>

datatype reader = EmptyReader | PipeReader nat | CallerReader nat

datatype writer = Discard | Buffer nat | PipeWriter nat | CallerWriter nat

type_synonym buffers = "nat \<Rightarrow> string"

text \<open>
  The heap a command works on: the contents of the byte buffers, how often \<open>Close()\<close> was
  called on each closer, and the next unused object identity.
\<close>

record heap =
  bytes :: buffers
  closeCalls :: "writer \<Rightarrow> nat"
  fresh :: nat

section \<open>The execution strategy interface and the generic command\<close>

text \<open>
  \<open>Execution[T]\<close>: the eight methods of the interface, each taking the strategy's state
  \<open>'m\<close> and returning it updated. \<open>run\<close> and \<open>wait\<close> are the methods that move bytes
  into the sinks handed to \<open>run\<close>, so they also see the buffers.
\<close>

record ('m, 'c) Execution =
  create :: "'c \<Rightarrow> string list \<Rightarrow> 'm \<Rightarrow> error option outcome \<times> 'm"
  run :: "'c \<Rightarrow> reader \<Rightarrow> writer \<Rightarrow> writer \<Rightarrow> 'm \<Rightarrow> buffers
            \<Rightarrow> error option outcome \<times> 'm \<times> buffers"
  wait :: "'c \<Rightarrow> 'm \<Rightarrow> buffers \<Rightarrow> (int \<times> error option) outcome \<times> 'm \<times> buffers"
  setEnv :: "string list \<Rightarrow> 'm \<Rightarrow> error option outcome \<times> 'm"
  setDir :: "string \<Rightarrow> 'm \<Rightarrow> error option outcome \<times> 'm"
  getID :: "'m \<Rightarrow> string outcome"
  kill :: "'c \<Rightarrow> 'm \<Rightarrow> error option outcome \<times> 'm"
  cleanup :: "'c \<Rightarrow> 'm \<Rightarrow> error option outcome \<times> 'm"

text \<open>\<open>GenericCmd[T]\<close>; \<open>Method\<close> holds the state of the strategy object.\<close>

record ('m, 'c) GenericCmd =
  Path :: string
  Args :: "string list"
  Env :: "string list option"
  Dir :: string
  Stdin :: "reader option"
  Stdout :: "writer option"
  Stderr :: "writer option"
  started :: bool
  Method :: 'm
  closeAfterWait :: "writer list"
  client :: 'c

text \<open>\<open>Docker.Command\<close> / \<open>Containerd.Command\<close>: the command a factory hands out.\<close>

definition Command :: "'c \<Rightarrow> 'm \<Rightarrow> string \<Rightarrow> string list \<Rightarrow> ('m, 'c) GenericCmd" where
  "Command c method name arg =
     \<lparr>Path = name, Args = arg, Env = None, Dir = [], Stdin = None, Stdout = None,
      Stderr = None, started = False, Method = method, closeAfterWait = [], client = c\<rparr>"

definition orDefault :: "'a \<Rightarrow> 'a option \<Rightarrow> 'a" where
  "orDefault d x = (case x of None \<Rightarrow> d | Some v \<Rightarrow> v)"

definition Start ::
  "('m, 'c) Execution \<Rightarrow> ('m, 'c) GenericCmd \<times> heap
     \<Rightarrow> error option outcome \<times> ('m, 'c) GenericCmd \<times> heap" where
  "Start E gh = (case gh of (g, h) \<Rightarrow>
     (case (if Dir g \<noteq> [] then setDir E (Dir g) (Method g) else (Return None, Method g)) of
        (Panic, m1) \<Rightarrow> (Panic, g\<lparr>Method := m1\<rparr>, h)
      | (Return (Some err), m1) \<Rightarrow> (Return (Some err), g\<lparr>Method := m1\<rparr>, h)
      | (Return None, m1) \<Rightarrow>
     (case (case Env g of Some env \<Rightarrow> setEnv E env m1 | None \<Rightarrow> (Return None, m1)) of
        (Panic, m2) \<Rightarrow> (Panic, g\<lparr>Method := m2\<rparr>, h)
      | (Return (Some err), m2) \<Rightarrow> (Return (Some err), g\<lparr>Method := m2\<rparr>, h)
      | (Return None, m2) \<Rightarrow>
     if started g
     then (Return (Some (ErrorString ''dexec: already started'')), g\<lparr>Method := m2\<rparr>, h)
     else
       let stdin = orDefault EmptyReader (Stdin g);
           stdout = orDefault Discard (Stdout g);
           stderr = orDefault Discard (Stderr g);
           g1 = g\<lparr>started := True, Stdin := Some stdin, Stdout := Some stdout,
                  Stderr := Some stderr\<rparr>;
           cmd = Path g # Args g
       in
     (case create E (client g) cmd m2 of
        (Panic, m3) \<Rightarrow> (Panic, g1\<lparr>Method := m3\<rparr>, h)
      | (Return (Some err), m3) \<Rightarrow> (Return (Some err), g1\<lparr>Method := m3\<rparr>, h)
      | (Return None, m3) \<Rightarrow>
     (case run E (client g) stdin stdout stderr m3 (bytes h) of
        (Panic, m4, b) \<Rightarrow> (Panic, g1\<lparr>Method := m4\<rparr>, h\<lparr>bytes := b\<rparr>)
      | (Return (Some err), m4, b) \<Rightarrow>
          (Return (Some err), g1\<lparr>Method := m4\<rparr>, h\<lparr>bytes := b\<rparr>)
      | (Return None, m4, b) \<Rightarrow>
          (Return None, g1\<lparr>Method := m4\<rparr>, h\<lparr>bytes := b\<rparr>))))))"

definition Close :: "writer \<Rightarrow> heap \<Rightarrow> heap" where
  "Close fd h = h\<lparr>closeCalls := (closeCalls h)(fd := closeCalls h fd + 1)\<rparr>"

fun closeFds :: "writer list \<Rightarrow> heap \<Rightarrow> heap" where
  "closeFds [] h = h"
| "closeFds (fd # l) h = closeFds l (Close fd h)"

text \<open>
  \<open>Wait\<close>: the deferred \<open>closeFds(g.closeAfterWait)\<close> takes its argument when \<open>Wait\<close> is
  entered and runs on every way out, a panic of the strategy included.
\<close>

definition Wait ::
  "('m, 'c) Execution \<Rightarrow> ('m, 'c) GenericCmd \<times> heap
     \<Rightarrow> error option outcome \<times> ('m, 'c) GenericCmd \<times> heap" where
  "Wait E gh = (case gh of (g, h) \<Rightarrow>
     let deferred = closeFds (closeAfterWait g) in
     if \<not> started g
     then (Return (Some (ErrorString ''dexec: not started'')), g, deferred h)
     else
     (case wait E (client g) (Method g) (bytes h) of
        (Panic, m, b) \<Rightarrow> (Panic, g\<lparr>Method := m\<rparr>, deferred (h\<lparr>bytes := b\<rparr>))
      | (Return (ec, Some err), m, b) \<Rightarrow>
          (Return (Some err), g\<lparr>Method := m\<rparr>, deferred (h\<lparr>bytes := b\<rparr>))
      | (Return (ec, None), m, b) \<Rightarrow>
          (if ec \<noteq> 0
           then (Return (Some (ExitError ec [])), g\<lparr>Method := m\<rparr>, deferred (h\<lparr>bytes := b\<rparr>))
           else (Return None, g\<lparr>Method := m\<rparr>, deferred (h\<lparr>bytes := b\<rparr>)))))"

definition Run ::
  "('m, 'c) Execution \<Rightarrow> ('m, 'c) GenericCmd \<times> heap
     \<Rightarrow> error option outcome \<times> ('m, 'c) GenericCmd \<times> heap" where
  "Run E gh =
     (case Start E gh of
        (Return None, g1, h1) \<Rightarrow> Wait E (g1, h1)
      | (r, g1, h1) \<Rightarrow> (r, g1, h1))"

definition CombinedOutput ::
  "('m, 'c) Execution \<Rightarrow> ('m, 'c) GenericCmd \<times> heap
     \<Rightarrow> (string \<times> error option) outcome \<times> ('m, 'c) GenericCmd \<times> heap" where
  "CombinedOutput E gh = (case gh of (g, h) \<Rightarrow>
     if Stdout g \<noteq> None
     then (Return ([], Some (ErrorString ''dexec: Stdout already set'')), g, h)
     else if Stderr g \<noteq> None
     then (Return ([], Some (ErrorString ''dexec: Stderr already set'')), g, h)
     else
       let b = fresh h;
           h0 = h\<lparr>bytes := (bytes h)(b := []), fresh := b + 1\<rparr>;
           g0 = g\<lparr>Stdout := Some (Buffer b), Stderr := Some (Buffer b)\<rparr>
       in
     (case Run E (g0, h0) of
        (Panic, g1, h1) \<Rightarrow> (Panic, g1, h1)
      | (Return err, g1, h1) \<Rightarrow> (Return (bytes h1 b, err), g1, h1)))"

text \<open>
  \<open>Output\<close>: \<open>var stdout, stderr bytes.Buffer\<close> are two new empty buffers; the type
  assertion \<open>err.(*ExitError)\<close> succeeds on an \<open>ExitError\<close> only, whose \<open>Stderr\<close> field is
  then overwritten.
\<close>

definition Output ::
  "('m, 'c) Execution \<Rightarrow> ('m, 'c) GenericCmd \<times> heap
     \<Rightarrow> (string \<times> error option) outcome \<times> ('m, 'c) GenericCmd \<times> heap" where
  "Output E gh = (case gh of (g, h) \<Rightarrow>
     if Stdout g \<noteq> None
     then (Return ([], Some (ErrorString ''dexec: Stdout already set'')), g, h)
     else
       let stdout = fresh h;
           stderr = fresh h + 1;
           h0 = h\<lparr>bytes := (bytes h)(stdout := [], stderr := []), fresh := fresh h + 2\<rparr>;
           captureErr = (Stderr g = None);
           g0 = g\<lparr>Stdout := Some (Buffer stdout),
                  Stderr := (if captureErr then Some (Buffer stderr) else Stderr g)\<rparr>
       in
     (case Run E (g0, h0) of
        (Panic, g1, h1) \<Rightarrow> (Panic, g1, h1)
      | (Return err, g1, h1) \<Rightarrow>
          (Return (bytes h1 stdout,
                   (case err of
                      Some (ExitError ec s) \<Rightarrow>
                        if captureErr then Some (ExitError ec (bytes h1 stderr)) else err
                    | _ \<Rightarrow> err)),
           g1, h1)))"

text \<open>The three pipe constructors; \<open>io.Pipe()\<close> makes a new pair of ends.\<close>

definition StdinPipe ::
  "('m, 'c) GenericCmd \<times> heap \<Rightarrow> (error + writer) \<times> ('m, 'c) GenericCmd \<times> heap" where
  "StdinPipe gh = (case gh of (g, h) \<Rightarrow>
     if Stdin g \<noteq> None
     then (Inl (ErrorString ''dexec: Stdin already set''), g, h)
     else
       let p = fresh h
       in (Inr (PipeWriter p), g\<lparr>Stdin := Some (PipeReader p)\<rparr>, h\<lparr>fresh := p + 1\<rparr>))"

definition StdoutPipe ::
  "('m, 'c) GenericCmd \<times> heap \<Rightarrow> (error + reader) \<times> ('m, 'c) GenericCmd \<times> heap" where
  "StdoutPipe gh = (case gh of (g, h) \<Rightarrow>
     if Stdout g \<noteq> None
     then (Inl (ErrorString ''dexec: Stdout already set''), g, h)
     else
       let p = fresh h
       in (Inr (PipeReader p),
           g\<lparr>Stdout := Some (PipeWriter p),
              closeAfterWait := closeAfterWait g @ [PipeWriter p]\<rparr>,
           h\<lparr>fresh := p + 1\<rparr>))"

definition StderrPipe ::
  "('m, 'c) GenericCmd \<times> heap \<Rightarrow> (error + reader) \<times> ('m, 'c) GenericCmd \<times> heap" where
  "StderrPipe gh = (case gh of (g, h) \<Rightarrow>
     if Stderr g \<noteq> None
     then (Inl (ErrorString ''dexec: Stderr already set''), g, h)
     else
       let p = fresh h
       in (Inr (PipeReader p),
           g\<lparr>Stderr := Some (PipeWriter p),
              closeAfterWait := closeAfterWait g @ [PipeWriter p]\<rparr>,
           h\<lparr>fresh := p + 1\<rparr>))"

definition GetPID :: "('m, 'c) Execution \<Rightarrow> ('m, 'c) GenericCmd \<Rightarrow> string outcome" where
  "GetPID E g = (if started g then getID E (Method g) else Return [])"

definition SetDir :: "string \<Rightarrow> ('m, 'c) GenericCmd \<Rightarrow> ('m, 'c) GenericCmd" where
  "SetDir dir g = g\<lparr>Dir := dir\<rparr>"

definition SetStderr :: "writer option \<Rightarrow> ('m, 'c) GenericCmd \<Rightarrow> ('m, 'c) GenericCmd" where
  "SetStderr w g = g\<lparr>Stderr := w\<rparr>"

definition Kill ::
  "('m, 'c) Execution \<Rightarrow> ('m, 'c) GenericCmd \<Rightarrow> error option outcome \<times> ('m, 'c) GenericCmd" where
  "Kill E g =
     (if started g
      then (case kill E (client g) (Method g) of (r, m) \<Rightarrow> (r, g\<lparr>Method := m\<rparr>))
      else (Return None, g))"

definition Cleanup ::
  "('m, 'c) Execution \<Rightarrow> ('m, 'c) GenericCmd \<Rightarrow> error option outcome \<times> ('m, 'c) GenericCmd" where
  "Cleanup E g = (case cleanup E (client g) (Method g) of (r, m) \<Rightarrow> (r, g\<lparr>Method := m\<rparr>))"

section \<open>Configuration and mount translation\<close>

record CommandDetails =
  ExecutorId :: "64 word"
  ChainExecutorId :: "64 word"
  ResultId :: "64 word"

record Mount =
  Type :: string
  Source :: string
  Destination :: string
  Options :: "string list"

text \<open>
  The two target shapes, \<open>specs.Mount\<close> and \<open>docker.HostMount\<close> (of the latter, the fields
  the translation sets; the others keep their zero value), and the type parameter
  \<open>T mountable\<close> as a tag.
\<close>

record specs_Mount =
  specs_Destination :: string
  specs_Type :: string
  specs_Source :: string
  specs_Options :: "string list"

record docker_HostMount =
  docker_Target :: string
  docker_Source :: string
  docker_Type :: string

datatype mountable = HostMount docker_HostMount | SpecsMount specs_Mount

datatype mountable_type = T_docker_HostMount | T_specs_Mount

text \<open>\<open>strings.HasPrefix\<close> and \<open>strings.Contains\<close> on byte strings.\<close>

fun HasPrefix :: "string \<Rightarrow> string \<Rightarrow> bool" where
  "HasPrefix s [] = True"
| "HasPrefix [] (p # ps) = False"
| "HasPrefix (c # s) (p # ps) = (c = p \<and> HasPrefix s ps)"

fun Contains :: "string \<Rightarrow> string \<Rightarrow> bool" where
  "Contains [] substr = (substr = [])"
| "Contains (c # s) substr = (HasPrefix (c # s) substr \<or> Contains s substr)"

definition convertMount :: "mountable_type \<Rightarrow> Mount \<Rightarrow> mountable" where
  "convertMount T m =
     (case T of
        T_docker_HostMount \<Rightarrow>
          HostMount \<lparr>docker_Target = Destination m, docker_Source = Source m,
                     docker_Type = Type m\<rparr>
      | T_specs_Mount \<Rightarrow>
          SpecsMount \<lparr>specs_Destination = Destination m, specs_Type = Type m,
                      specs_Source = Source m, specs_Options = Options m\<rparr>)"

definition convertMounts :: "mountable_type \<Rightarrow> Mount list \<Rightarrow> mountable list" where
  "convertMounts T ms = map (convertMount T) ms"

definition filterMounts :: "mountable_type \<Rightarrow> Mount list \<Rightarrow> Mount list" where
  "filterMounts T ms =
     (case T of
        T_docker_HostMount \<Rightarrow> filter (\<lambda>m. \<not> Contains (Destination m) ''resolv.conf'') ms
      | T_specs_Mount \<Rightarrow> ms)"

text \<open>
  The \<open>Mounts\<close> that \<open>getDockerExecution\<close> puts into the host configuration and that
  \<open>getContainerdExecution\<close> puts into the task options.
\<close>

definition getDockerExecution_Mounts :: "Mount list \<Rightarrow> mountable list" where
  "getDockerExecution_Mounts ms =
     convertMounts T_docker_HostMount (filterMounts T_docker_HostMount ms)"

definition getContainerdExecution_Mounts :: "Mount list \<Rightarrow> mountable list" where
  "getContainerdExecution_Mounts ms =
     convertMounts T_specs_Mount (filterMounts T_specs_Mount ms)"

section \<open>The namespaced-task strategy\<close>

text \<open>
  The runtime objects a strategy talks to, each with the answers it gives when called (as
  the mocks of the unit tests are set up): a process, a task, a container and the client
  handle. A nil interface value is \<open>None\<close> where a field holds one.
\<close>

datatype ProcessStatus =
    containerd_Running | containerd_Created | containerd_Stopped | containerd_Paused
  | containerd_Pausing | containerd_Unknown | containerd_other string

record process =
  process_ID :: string
  process_Wait :: "error option"
  process_Start :: "error option"

record task =
  task_ID :: string
  task_Delete :: "error option"
  task_Exec :: "error + process"
  task_Status :: "error + ProcessStatus"

record container =
  container_ID :: string
  container_Delete :: "error option"
  container_Task :: "error + task"
  container_NewTask :: "error + task"
  container_Spec :: "error option"
  container_Labels :: "error + (string \<Rightarrow> string option)"

record Containerd =
  DefaultNamespace :: string
  WithLease :: "error + nat"
  GetImage :: "string \<Rightarrow> error + string"
  nerdctl :: "string list \<Rightarrow> error + string"
  LoadContainer :: "string \<Rightarrow> error + container"
  Containers :: "error + container list"

record CreateTaskOptions =
  Image :: string
  Mounts :: "specs_Mount list"
  User :: string
  opts_Env :: "string list"
  CommandTimeout :: int
  WorkingDir :: string
  CommandDetails :: CommandDetails

text \<open>
  The \<open>createTask\<close> struct. \<open>doneFunc\<close> holds the lease that the stored cancellation
  releases; \<open>cni\<close> holds the answer of the plugin's \<open>Remove\<close>. The logger is left out
  (logging changes nothing here).
\<close>

record createTask =
  opts :: CreateTaskOptions
  ctx :: "nat option"
  doneFunc :: "nat option"
  image_h :: "string option"
  container :: "container option"
  task :: "task option"
  cmd :: "string list"
  process :: "process option"
  exitChan :: bool
  tmpDir :: string
  net :: "string option"
  cni :: "error option option"

definition ByCreatingTask :: "CreateTaskOptions \<Rightarrow> createTask" where
  "ByCreatingTask options =
     \<lparr>opts = options, ctx = None, doneFunc = None, image_h = None, container = None, task = None,
      cmd = [], process = None, exitChan = False, tmpDir = [], net = None, cni = None\<rparr>"

subsection \<open>Container names\<close>

fun bitlen :: "nat \<Rightarrow> nat" where
  "bitlen n = (if n = 0 then 0 else Suc (bitlen (n div 2)))"

declare bitlen.simps [simp del]

text \<open>
  \<open>float64(v)\<close> for a magnitude \<open>n\<close>: the nearest number with a 53-bit significand, ties
  to the even significand (IEEE 754 binary64, which Go's conversion follows). The result
  is again a whole number, given here as such.
\<close>

definition float64 :: "nat \<Rightarrow> nat" where
  "float64 n =
     (if n < 2 ^ 53 then n
      else
        let e = bitlen n - 53;
            q = n div 2 ^ e;
            r = n mod 2 ^ e;
            half = 2 ^ (e - 1)
        in if r < half \<or> (r = half \<and> even q) then q * 2 ^ e else (q + 1) * 2 ^ e)"

text \<open>
  \<open>abs\<close>: for a negative \<open>v\<close> it goes through \<open>math.Abs(float64(v))\<close> and converts back.
  Converting a float64 that no int64 can hold (here only \<open>2 ^ 63\<close>) gives an
  implementation-dependent value in Go; it is the parameter \<open>ovf\<close>.
\<close>

definition abs_int64 :: "64 word \<Rightarrow> 64 word \<Rightarrow> 64 word" where
  "abs_int64 ovf v =
     (if 0 \<le> sint v then v
      else
        let f = float64 (nat (- sint v))
        in if f < 2 ^ 63 then word_of_nat f else ovf)"

text \<open>The verb \<open>%d\<close> of \<open>fmt.Sprintf\<close> on an integer.\<close>

definition digitChar :: "nat \<Rightarrow> char" where
  "digitChar d = ''0123456789'' ! d"

fun FormatUint :: "nat \<Rightarrow> string" where
  "FormatUint n = (if n < 10 then [digitChar n] else FormatUint (n div 10) @ [digitChar (n mod 10)])"

declare FormatUint.simps [simp del]

definition Sprintf_d :: "int \<Rightarrow> string" where
  "Sprintf_d i = (if i < 0 then CHR ''-'' # FormatUint (nat (- i)) else FormatUint (nat i))"

definition randomSuffixLength :: nat where
  "randomSuffixLength = 6"

text \<open>
  \<open>generateContainerId\<close>. \<open>RandomString\<close> is declared outside the files at hand and is a
  parameter: the function that answers the call \<open>RandomString(n)\<close>.
\<close>

definition generateContainerId :: "(nat \<Rightarrow> string) \<Rightarrow> 64 word \<Rightarrow> createTask \<Rightarrow> string" where
  "generateContainerId RandomString ovf t =
     (let suffix = RandomString randomSuffixLength;
          details = CommandDetails (opts t)
      in ''chains-'' @ Sprintf_d (sint (abs_int64 ovf (ChainExecutorId details)))
         @ ''-'' @ Sprintf_d (sint (abs_int64 ovf (ExecutorId details)))
         @ ''-'' @ Sprintf_d (sint (abs_int64 ovf (ResultId details)))
         @ ''-'' @ suffix)"

subsection \<open>create and run\<close>

definition buildCreateContainerCmd ::
  "(nat \<Rightarrow> string) \<Rightarrow> 64 word \<Rightarrow> Containerd \<Rightarrow> createTask \<Rightarrow> string list" where
  "buildCreateContainerCmd RandomString ovf c t =
     [''--namespace'', DefaultNamespace c, ''create'', ''--name'',
      generateContainerId RandomString ovf t, ''--user'', User (opts t)]
     @ concat (map (\<lambda>m. [''-v'', specs_Source m @ '':'' @ specs_Destination m]) (Mounts (opts t)))
     @ concat (map (\<lambda>e. [''-e'', e]) (opts_Env (opts t)))
     @ [Image (opts t)]"

text \<open>\<open>strings.TrimSpace\<close>, on the ASCII white space a container id can be printed with.\<close>

definition isSpace :: "char \<Rightarrow> bool" where
  "isSpace ch = (ch \<in> {CHR 0x09, CHR 0x0A, CHR 0x0B, CHR 0x0C, CHR 0x0D, CHR '' ''})"

definition TrimSpace :: "string \<Rightarrow> string" where
  "TrimSpace s = rev (dropWhile isSpace (rev (dropWhile isSpace s)))"

definition createContainer ::
  "(nat \<Rightarrow> string) \<Rightarrow> 64 word \<Rightarrow> Containerd \<Rightarrow> createTask \<Rightarrow> error + container" where
  "createContainer RandomString ovf c t =
     (let nerdctlArgs = buildCreateContainerCmd RandomString ovf c t
      in (case nerdctl c nerdctlArgs of
            Inl err \<Rightarrow> Inl (Errorf ''error creating container'' err)
          | Inr stdout \<Rightarrow> LoadContainer c (TrimSpace stdout)))"

definition createTask_create ::
  "(nat \<Rightarrow> string) \<Rightarrow> 64 word \<Rightarrow> Containerd \<Rightarrow> string list \<Rightarrow> createTask
     \<Rightarrow> error option outcome \<times> createTask" where
  "createTask_create RandomString ovf c command t =
     (let t1 = t\<lparr>cmd := command\<rparr>
      in (case WithLease c of
            Inl err \<Rightarrow> (Return (Some (Errorf ''error creating containerd context'' err)), t1)
          | Inr lease \<Rightarrow>
     (let t2 = t1\<lparr>ctx := Some lease, doneFunc := Some lease\<rparr>
      in (case GetImage c (Image (opts t2)) of
            Inl err \<Rightarrow>
              (Return (Some (Errorf (''error getting image '' @ Image (opts t2)
                                      @ '' from namespace '' @ DefaultNamespace c) err)), t2)
          | Inr img \<Rightarrow>
     (let t3 = t2\<lparr>image_h := Some img\<rparr>
      in (case createContainer RandomString ovf c t3 of
            Inl err \<Rightarrow> (Return (Some (Errorf ''error creating container'' err)), t3)
          | Inr cont \<Rightarrow> (Return None, t3\<lparr>container := Some cont\<rparr>)))))))"

text \<open>The method \<open>createTask\<close> of the struct: attach to the task there is, else make one.\<close>

definition createTask_createTask :: "container \<Rightarrow> error + task" where
  "createTask_createTask cont =
     (case container_Task cont of
        Inr tk \<Rightarrow> Inr tk
      | Inl err \<Rightarrow> container_NewTask cont)"

text \<open>
  \<open>createProcessSpec\<close>, as far as the arguments and the working directory go: the process
  spec it hands on is \<open>(Args, Cwd)\<close>.
\<close>

definition createProcessSpec :: "createTask \<Rightarrow> container \<Rightarrow> error + (string list \<times> string)" where
  "createProcessSpec t cont =
     (case container_Spec cont of
        Some err \<Rightarrow> Inl (Errorf ''error getting spec from container'' err)
      | None \<Rightarrow> Inr (cmd t, WorkingDir (opts t)))"

definition createTask_run ::
  "Containerd \<Rightarrow> reader \<Rightarrow> writer \<Rightarrow> writer \<Rightarrow> createTask \<Rightarrow> buffers
     \<Rightarrow> error option outcome \<times> createTask \<times> buffers" where
  "createTask_run c stdin stdout stderr t b =
     (case container t of
        None \<Rightarrow> (Panic, t, b)
      | Some cont \<Rightarrow>
     (case createTask_createTask cont of
        Inl err \<Rightarrow> (Return (Some (Errorf ''error creating task'' err)), t, b)
      | Inr tk \<Rightarrow>
     (let t1 = t\<lparr>task := Some tk\<rparr>
      in (case createProcessSpec t1 cont of
            Inl err \<Rightarrow> (Return (Some (Errorf ''error creating process spec'' err)), t1, b)
          | Inr spec \<Rightarrow>
     (case task_Exec tk of
        Inl err \<Rightarrow> (Return (Some (Errorf ''error creating process'' err)), t1, b)
      | Inr ps \<Rightarrow>
     (let t2 = t1\<lparr>process := Some ps\<rparr>
      in (case process_Wait ps of
            Some err \<Rightarrow>
              (Return (Some (Errorf ''error waiting for process'' err)),
               t2\<lparr>exitChan := False\<rparr>, b)
          | None \<Rightarrow>
     (let t3 = t2\<lparr>exitChan := True\<rparr>
      in (case process_Start ps of
            Some err \<Rightarrow> (Return (Some (Errorf ''error starting process'' err)), t3, b)
          | None \<Rightarrow> (Return None, t3, b))))))))))"

subsection \<open>The setters\<close>

definition createTask_setEnv :: "string list \<Rightarrow> createTask \<Rightarrow> error option outcome \<times> createTask" where
  "createTask_setEnv env t =
     (if length (opts_Env (opts t)) > 0
      then (Return (Some (ErrorString ''dexec: Config.Env already set'')), t)
      else (Return None, t\<lparr>opts := (opts t)\<lparr>opts_Env := env\<rparr>\<rparr>))"

definition createTask_setDir :: "string \<Rightarrow> createTask \<Rightarrow> error option outcome \<times> createTask" where
  "createTask_setDir dir t =
     (if WorkingDir (opts t) \<noteq> []
      then (Return (Some (ErrorString ''dexec: Config.WorkingDir already set'')), t)
      else (Return None, t\<lparr>opts := (opts t)\<lparr>WorkingDir := dir\<rparr>\<rparr>))"

definition createTask_getID :: "createTask \<Rightarrow> string outcome" where
  "createTask_getID t = (case container t of None \<Rightarrow> Panic | Some cont \<Rightarrow> Return (container_ID cont))"

subsection \<open>cleanup\<close>

text \<open>
  The calls \<open>cleanup\<close> makes on the runtime, in order. \<open>errdefs.IsNotFound\<close> looks through
  the wrappers of an error for \<open>ErrNotFound\<close>.
\<close>

datatype call = CniRemove | TaskDelete | ContainerDelete | LeaseDone

fun IsNotFound :: "error \<Rightarrow> bool" where
  "IsNotFound ErrNotFound = True"
| "IsNotFound (Errorf prefix e) = IsNotFound e"
| "IsNotFound (ErrorString msg) = False"
| "IsNotFound (ExitError ec stderr) = False"

text \<open>
  The body of \<open>cleanup\<close> below its \<open>defer\<close>: the result, and the calls made. Calling a
  method of a nil \<open>task\<close> or \<open>container\<close> panics.
\<close>

definition cleanup_deletes :: "createTask \<Rightarrow> error option outcome \<times> call list" where
  "cleanup_deletes t =
     (case task t of
        None \<Rightarrow> (Panic, [])
      | Some tk \<Rightarrow>
     (case task_Delete tk of
        Some err \<Rightarrow>
          if \<not> IsNotFound err
          then (Return (Some (Errorf ''error deleting task'' err)), [TaskDelete])
          else
            (case container t of
               None \<Rightarrow> (Panic, [TaskDelete])
             | Some cont \<Rightarrow>
                 (case container_Delete cont of
                    None \<Rightarrow> (Return None, [TaskDelete, ContainerDelete])
                  | Some err' \<Rightarrow>
                      if IsNotFound err' then (Return None, [TaskDelete, ContainerDelete])
                      else (Return (Some (Errorf ''error deleting container'' err')),
                            [TaskDelete, ContainerDelete])))
      | None \<Rightarrow>
          (case container t of
             None \<Rightarrow> (Panic, [TaskDelete])
           | Some cont \<Rightarrow>
               (case container_Delete cont of
                  None \<Rightarrow> (Return None, [TaskDelete, ContainerDelete])
                | Some err' \<Rightarrow>
                    if IsNotFound err' then (Return None, [TaskDelete, ContainerDelete])
                    else (Return (Some (Errorf ''error deleting container'' err')),
                          [TaskDelete, ContainerDelete])))))"

text \<open>
  \<open>cleanup\<close> (the revision with the network plugin): the deferred function releases the
  lease when both \<open>doneFunc\<close> and \<open>ctx\<close> are set, whatever way the body is left.
\<close>

definition createTask_cleanup :: "createTask \<Rightarrow> error option outcome \<times> call list" where
  "createTask_cleanup t =
     (let deferred = (if doneFunc t \<noteq> None \<and> ctx t \<noteq> None then [LeaseDone] else [])
      in if cni t \<noteq> None \<and> net t \<noteq> None
         then (case container t of
                 None \<Rightarrow> (Panic, deferred)
               | Some cont \<Rightarrow>
                   (case cleanup_deletes t of (r, calls) \<Rightarrow> (r, CniRemove # calls @ deferred)))
         else (case cleanup_deletes t of (r, calls) \<Rightarrow> (r, calls @ deferred)))"

text \<open>
  \<open>cleanup\<close> (the earlier revision): \<open>defer t.doneFunc(t.ctx)\<close> without a guard; calling
  the nil function at the end panics.
\<close>

definition createTask_cleanup_rev1 :: "createTask \<Rightarrow> error option outcome \<times> call list" where
  "createTask_cleanup_rev1 t =
     (case cleanup_deletes t of (r, calls) \<Rightarrow>
        (case doneFunc t of
           None \<Rightarrow> (Panic, calls)
         | Some lease \<Rightarrow> (r, calls @ [LeaseDone])))"

definition createTask_kill :: "createTask \<Rightarrow> error option outcome \<times> call list" where
  "createTask_kill t = createTask_cleanup t"

text \<open>
  The strategy as an \<open>Execution\<close>. Its \<open>wait\<close> blocks on a channel and a timer; what it
  answers is the parameter \<open>w\<close>.
\<close>

definition createTask_Execution ::
  "(nat \<Rightarrow> string) \<Rightarrow> 64 word
     \<Rightarrow> (Containerd \<Rightarrow> createTask \<Rightarrow> buffers \<Rightarrow> (int \<times> error option) outcome \<times> createTask \<times> buffers)
     \<Rightarrow> (createTask, Containerd) Execution" where
  "createTask_Execution RandomString ovf w =
     \<lparr>create = createTask_create RandomString ovf,
      run = createTask_run,
      wait = w,
      setEnv = createTask_setEnv,
      setDir = createTask_setDir,
      getID = createTask_getID,
      kill = (\<lambda>c t. (fst (createTask_kill t), t)),
      cleanup = (\<lambda>c t. (fst (createTask_cleanup t), t))\<rparr>"

section \<open>The stats snapshot\<close>

record Stats =
  Running :: int
  Created :: int
  Stopped :: int
  Paused :: int
  Pausing :: int
  Unknown :: int
  DeadlineExceeded :: int
  Errors :: int

definition Stats_zero :: Stats where
  "Stats_zero = \<lparr>Running = 0, Created = 0, Stopped = 0, Paused = 0, Pausing = 0, Unknown = 0,
                  DeadlineExceeded = 0, Errors = 0\<rparr>"

definition RFC3339 :: string where
  "RFC3339 = ''2006-01-02T15:04:05Z07:00''"

text \<open>
  One turn of the loop of \<open>getContainerdStats\<close>, in its two halves. \<open>Parse\<close> stands for
  \<open>time.Parse\<close>, whose first argument is the layout and whose second is the value to
  parse; \<open>Now\<close> is what \<open>time.Now()\<close> answers. Times are numbers on one time line.
\<close>

definition countDeadline ::
  "(string \<Rightarrow> string \<Rightarrow> error + int) \<Rightarrow> int \<Rightarrow> container \<Rightarrow> Stats \<Rightarrow> Stats" where
  "countDeadline Parse Now cont stats =
     (case container_Labels cont of
        Inr labels \<Rightarrow>
          (case labels ''chains/deadline'' of
             Some deadline \<Rightarrow>
               (case Parse deadline RFC3339 of
                  Inr deadlineTime \<Rightarrow>
                    if Now > deadlineTime
                    then stats\<lparr>DeadlineExceeded := DeadlineExceeded stats + 1\<rparr>
                    else stats
                | Inl err \<Rightarrow> stats\<lparr>Errors := Errors stats + 1\<rparr>)
           | None \<Rightarrow> stats)
      | Inl err \<Rightarrow> stats\<lparr>Errors := Errors stats + 1\<rparr>)"

definition countStatus :: "container \<Rightarrow> Stats \<Rightarrow> Stats" where
  "countStatus cont stats =
     (case container_Task cont of
        Inr tk \<Rightarrow>
          (case task_Status tk of
             Inr status \<Rightarrow>
               (case status of
                  containerd_Stopped \<Rightarrow> stats\<lparr>Stopped := Stopped stats + 1\<rparr>
                | containerd_Running \<Rightarrow> stats\<lparr>Running := Running stats + 1\<rparr>
                | containerd_Created \<Rightarrow> stats\<lparr>Created := Created stats + 1\<rparr>
                | containerd_Paused \<Rightarrow> stats\<lparr>Paused := Paused stats + 1\<rparr>
                | containerd_Pausing \<Rightarrow> stats\<lparr>Pausing := Pausing stats + 1\<rparr>
                | containerd_Unknown \<Rightarrow> stats\<lparr>Unknown := Unknown stats + 1\<rparr>
                | containerd_other other \<Rightarrow> stats)
           | Inl err \<Rightarrow> stats\<lparr>Errors := Errors stats + 1\<rparr>)
      | Inl err \<Rightarrow> stats\<lparr>Errors := Errors stats + 1\<rparr>)"

fun countContainers ::
  "(string \<Rightarrow> string \<Rightarrow> error + int) \<Rightarrow> int \<Rightarrow> container list \<Rightarrow> Stats \<Rightarrow> Stats" where
  "countContainers Parse Now [] stats = stats"
| "countContainers Parse Now (cont # containers) stats =
     countContainers Parse Now containers (countStatus cont (countDeadline Parse Now cont stats))"

definition getContainerdStats ::
  "(string \<Rightarrow> string \<Rightarrow> error + int) \<Rightarrow> int \<Rightarrow> Containerd \<Rightarrow> Stats \<times> error option" where
  "getContainerdStats Parse Now c =
     (case Containers c of
        Inl err \<Rightarrow> (Stats_zero, Some (Errorf ''error getting stats'' err))
      | Inr containers \<Rightarrow> (countContainers Parse Now containers Stats_zero, None))"

section \<open>Test doubles\<close>

text \<open>
  A scripted strategy for running commands on concrete inputs: \<open>create\<close>, \<open>run\<close> and
  \<open>wait\<close> answer what they are told to, \<open>run\<close> keeps the two sinks, \<open>wait\<close> writes the
  scripted output to them, and the setters refuse a second value as both strategies of the
  package do.
\<close>

record stub =
  stub_WorkingDir :: string
  stub_Env :: "string list"
  stub_stdout :: writer
  stub_stderr :: writer

definition writeTo :: "writer \<Rightarrow> string \<Rightarrow> buffers \<Rightarrow> buffers" where
  "writeTo w s b = (case w of Buffer n \<Rightarrow> b(n := b n @ s) | _ \<Rightarrow> b)"

definition stubExecution ::
  "error option \<Rightarrow> error option \<Rightarrow> string \<Rightarrow> string \<Rightarrow> int \<times> error option
     \<Rightarrow> (stub, unit) Execution" where
  "stubExecution createErr runErr out err exit =
     \<lparr>create = (\<lambda>c command m. (Return createErr, m)),
      run = (\<lambda>c stdin stdout stderr m b.
               (Return runErr, m\<lparr>stub_stdout := stdout, stub_stderr := stderr\<rparr>, b)),
      wait = (\<lambda>c m b. (Return exit, m, writeTo (stub_stderr m) err (writeTo (stub_stdout m) out b))),
      setEnv = (\<lambda>env m. if length (stub_Env m) > 0
                          then (Return (Some (ErrorString ''dexec: Config.Env already set'')), m)
                          else (Return None, m\<lparr>stub_Env := env\<rparr>)),
      setDir = (\<lambda>dir m. if stub_WorkingDir m \<noteq> []
                          then (Return (Some (ErrorString ''dexec: Config.WorkingDir already set'')), m)
                          else (Return None, m\<lparr>stub_WorkingDir := dir\<rparr>)),
      getID = (\<lambda>m. Return ''stub''),
      kill = (\<lambda>c m. (Return None, m)),
      cleanup = (\<lambda>c m. (Return None, m))\<rparr>"

definition stub0 :: stub where
  "stub0 = \<lparr>stub_WorkingDir = [], stub_Env = [], stub_stdout = Discard, stub_stderr = Discard\<rparr>"

definition heap0 :: heap where
  "heap0 = \<lparr>bytes = (\<lambda>n. []), closeCalls = (\<lambda>w. 0), fresh = 0\<rparr>"

definition cmd_sh :: "(stub, unit) GenericCmd" where
  "cmd_sh = Command () stub0 ''sh'' []"

text \<open>
  A strategy whose \<open>create\<close> fails and whose \<open>wait\<close> then answers as the daemon
  strategy does without an attachment; a strategy whose process writes \<open>out\<close> and \<open>boom\<close>
  and exits with a given code; a command with a working directory on a strategy that
  already has one.
\<close>

definition stub_createFails :: "(stub, unit) Execution" where
  "stub_createFails =
     stubExecution (Some (ErrorString ''dexec: failed to create container'')) None [] []
       (- 1, Some (ErrorString ''dexec: container is not attached''))"

definition stub_exits :: "int \<Rightarrow> (stub, unit) Execution" where
  "stub_exits k = stubExecution None None ''out'' ''boom'' (k, None)"

definition cmd_dir :: "(stub, unit) GenericCmd" where
  "cmd_dir = (Command () (stub0\<lparr>stub_WorkingDir := ''/srv''\<rparr>) ''sh'' [])\<lparr>Dir := ''/app''\<rparr>"

text \<open>A runtime where every call succeeds, and a task command on it.\<close>

definition process_ok :: process where
  "process_ok = \<lparr>process_ID = ''c0ffee-task'', process_Wait = None, process_Start = None\<rparr>"

definition task_ok :: task where
  "task_ok = \<lparr>task_ID = ''c0ffee'', task_Delete = None, task_Exec = Inr process_ok,
               task_Status = Inr containerd_Running\<rparr>"

definition container_ok :: container where
  "container_ok =
     \<lparr>container_ID = ''c0ffee'', container_Delete = None, container_Task = Inl ErrNotFound,
      container_NewTask = Inr task_ok, container_Spec = None,
      container_Labels = Inr (\<lambda>k. None)\<rparr>"

definition client_ok :: Containerd where
  "client_ok =
     \<lparr>DefaultNamespace = ''unit-test'', WithLease = Inr 7, GetImage = (\<lambda>ref. Inr ref),
      nerdctl = (\<lambda>args. Inr ''c0ffee''), LoadContainer = (\<lambda>id. Inr container_ok),
      Containers = Inr [container_ok]\<rparr>"

definition opts_alpine :: CreateTaskOptions where
  "opts_alpine =
     \<lparr>Image = ''alpine'', Mounts = [], User = [], opts_Env = [], CommandTimeout = 0,
      WorkingDir = [],
      CommandDetails = \<lparr>ExecutorId = 2, ChainExecutorId = 1, ResultId = 3\<rparr>\<rparr>"

definition task_exits0 ::
  "Containerd \<Rightarrow> createTask \<Rightarrow> buffers \<Rightarrow> (int \<times> error option) outcome \<times> createTask \<times> buffers" where
  "task_exits0 c t b = (Return (0, None), t, b)"

definition taskExecution_ok :: "(createTask, Containerd) Execution" where
  "taskExecution_ok = createTask_Execution (\<lambda>n. ''abcdef'') 0 task_exits0"

definition cmd_work :: "(createTask, Containerd) GenericCmd" where
  "cmd_work = (Command client_ok (ByCreatingTask opts_alpine) ''sh'' [])\<lparr>Dir := ''/work''\<rparr>"

text \<open>
  The command \<open>cmd_sh\<close> after \<open>StdoutPipe\<close>, and then after \<open>Start\<close> on the strategy
  whose process exits with code \<open>k\<close>.
\<close>

definition piped :: "(stub, unit) GenericCmd \<times> heap" where
  "piped = snd (StdoutPipe (cmd_sh, heap0))"

definition running :: "int \<Rightarrow> (stub, unit) GenericCmd \<times> heap" where
  "running k = snd (Start (stub_exits k) piped)"

text \<open>
  Started commands whose strategy refuses the working directory or the environment, and a
  task command with an environment.
\<close>

definition cmd_dir_started :: "(stub, unit) GenericCmd" where
  "cmd_dir_started = cmd_dir\<lparr>started := True\<rparr>"

definition cmd_env_started :: "(stub, unit) GenericCmd" where
  "cmd_env_started =
     (Command () (stub0\<lparr>stub_Env := [''A=1'']\<rparr>) ''sh'' [])\<lparr>Env := Some [''B=2''], started := True\<rparr>"

definition cmd_work_env :: "(createTask, Containerd) GenericCmd" where
  "cmd_work_env = (Command client_ok (ByCreatingTask opts_alpine) ''sh'' [])\<lparr>Env := Some [''A=1'']\<rparr>"

text \<open>
  Strategy states as the unit tests of \<open>cleanup\<close> set them up, here with a lease: the
  task's \<open>Delete\<close> answers \<open>ErrNotFound\<close>, or an error of its own.
\<close>

definition task_held :: "error option \<Rightarrow> createTask" where
  "task_held del =
     (ByCreatingTask opts_alpine)
       \<lparr>ctx := Some 7, doneFunc := Some 7, container := Some container_ok,
        task := Some (task_ok\<lparr>task_Delete := del\<rparr>)\<rparr>"

text \<open>A delete that succeeds or fails with \<open>NotFound\<close>: the answers \<open>cleanup\<close> lets pass.\<close>

definition swallowed :: "error option \<Rightarrow> bool" where
  "swallowed r = (case r of None \<Rightarrow> True | Some e \<Rightarrow> IsNotFound e)"

text \<open>The mounts of the unit tests (\<open>getMounts\<close>), and a mount of the resolver file.\<close>

definition getMounts :: "Mount list" where
  "getMounts =
     [\<lparr>Type = ''bind'', Source = ''/local/path'', Destination = ''/go/src'', Options = [''bind'']\<rparr>]"

definition resolvMount :: Mount where
  "resolvMount =
     \<lparr>Type = ''bind'', Source = ''/run/resolv.conf'', Destination = ''/etc/resolv.conf'',
      Options = [''ro'']\<rparr>"

text \<open>Task options whose executor id is \<open>-(2 ^ 53 + 1)\<close>.\<close>

definition opts_big :: CreateTaskOptions where
  "opts_big =
     opts_alpine\<lparr>CommandDetails :=
       \<lparr>ExecutorId = - 9007199254740993, ChainExecutorId = 1, ResultId = 3\<rparr>\<rparr>"

text \<open>
  Two answers of \<open>time.Parse\<close>, as a table: with the layout \<open>RFC3339\<close> the value
  "2020-01-01T00:00:00Z" is the time 1577836800 (seconds since 1970); every other call
  made below, among them the one with that value as the layout and the \<open>RFC3339\<close> layout
  string as the value, fails. A client that lists one running container with that value
  as its deadline label.
\<close>

definition Parse_sample :: "string \<Rightarrow> string \<Rightarrow> error + int" where
  "Parse_sample layout v =
     (if layout = RFC3339 \<and> v = ''2020-01-01T00:00:00Z'' then Inr 1577836800
      else Inl (ErrorString ''parsing time''))"

definition client_deadline :: Containerd where
  "client_deadline =
     client_ok\<lparr>Containers :=
       Inr [container_ok\<lparr>container_Task := Inr task_ok, container_Labels :=
              Inr (\<lambda>k. if k = ''chains/deadline'' then Some ''2020-01-01T00:00:00Z'' else None)\<rparr>]\<rparr>"

section \<open>A caller's sequence of uses\<close>

text \<open>
  What a caller can do with a command: call its methods and assign its exported stream,
  \<open>Dir\<close> and \<open>Env\<close> fields. \<open>use\<close> is the state after one such step (what the call
  returned is dropped), \<open>uses\<close> the state after a sequence of them.
\<close>

datatype api =
    Call_Start | Call_Wait | Call_Run | Call_Output | Call_CombinedOutput
  | Call_StdinPipe | Call_StdoutPipe | Call_StderrPipe | Call_Kill | Call_Cleanup
  | Call_SetDir string | Call_SetStderr "writer option"
  | Assign_Stdin "reader option" | Assign_Stdout "writer option" | Assign_Env "string list option"

fun use ::
  "('m, 'c) Execution \<Rightarrow> api \<Rightarrow> ('m, 'c) GenericCmd \<times> heap \<Rightarrow> ('m, 'c) GenericCmd \<times> heap" where
  "use E Call_Start s = snd (Start E s)"
| "use E Call_Wait s = snd (Wait E s)"
| "use E Call_Run s = snd (Run E s)"
| "use E Call_Output s = snd (Output E s)"
| "use E Call_CombinedOutput s = snd (CombinedOutput E s)"
| "use E Call_StdinPipe s = snd (StdinPipe s)"
| "use E Call_StdoutPipe s = snd (StdoutPipe s)"
| "use E Call_StderrPipe s = snd (StderrPipe s)"
| "use E Call_Kill s = (snd (Kill E (fst s)), snd s)"
| "use E Call_Cleanup s = (snd (Cleanup E (fst s)), snd s)"
| "use E (Call_SetDir dir) s = (SetDir dir (fst s), snd s)"
| "use E (Call_SetStderr w) s = (SetStderr w (fst s), snd s)"
| "use E (Assign_Stdin r) s = ((fst s)\<lparr>Stdin := r\<rparr>, snd s)"
| "use E (Assign_Stdout w) s = ((fst s)\<lparr>Stdout := w\<rparr>, snd s)"
| "use E (Assign_Env env) s = ((fst s)\<lparr>Env := env\<rparr>, snd s)"

fun uses ::
  "('m, 'c) Execution \<Rightarrow> api list \<Rightarrow> ('m, 'c) GenericCmd \<times> heap \<Rightarrow> ('m, 'c) GenericCmd \<times> heap" where
  "uses E [] s = s"
| "uses E (a # as) s = uses E as (use E a s)"

text \<open>
  The closers of a command are pipe writers the library made, each listed once; and a
  writer that is not among them and, if it is a pipe writer, was made before now.
\<close>

definition closers_ok :: "('m, 'c) GenericCmd \<times> heap \<Rightarrow> bool" where
  "closers_ok s =
     (distinct (closeAfterWait (fst s))
      \<and> (\<forall>w \<in> set (closeAfterWait (fst s)). \<exists>p. w = PipeWriter p \<and> p < fresh (snd s)))"

definition outside :: "writer \<Rightarrow> ('m, 'c) GenericCmd \<times> heap \<Rightarrow> bool" where
  "outside w s =
     (w \<notin> set (closeAfterWait (fst s)) \<and> (\<forall>p. w = PipeWriter p \<longrightarrow> p < fresh (snd s)))"

text \<open>
  The command and the heap that \<open>Output\<close> hands to \<open>Run\<close>, and what it does to the
  error of the run.
\<close>

definition Output_cmd :: "('m, 'c) GenericCmd \<Rightarrow> heap \<Rightarrow> ('m, 'c) GenericCmd" where
  "Output_cmd g h =
     g\<lparr>Stdout := Some (Buffer (fresh h)),
       Stderr := (if Stderr g = None then Some (Buffer (fresh h + 1)) else Stderr g)\<rparr>"

definition Output_heap :: "heap \<Rightarrow> heap" where
  "Output_heap h = h\<lparr>bytes := (bytes h)(fresh h := [], fresh h + 1 := []), fresh := fresh h + 2\<rparr>"

definition attachStderr :: "bool \<Rightarrow> string \<Rightarrow> error option \<Rightarrow> error option" where
  "attachStderr captureErr captured err =
     (case err of
        Some (ExitError ec s) \<Rightarrow> if captureErr then Some (ExitError ec captured) else err
      | _ \<Rightarrow> err)"

text \<open>A command whose \<open>Stderr\<close> the caller has set, and one whose \<open>Stdout\<close> is set.\<close>

definition cmd_stderr_set :: "(stub, unit) GenericCmd" where
  "cmd_stderr_set = cmd_sh\<lparr>Stderr := Some (CallerWriter 0)\<rparr>"

definition cmd_stdout_set :: "(stub, unit) GenericCmd" where
  "cmd_stdout_set = cmd_sh\<lparr>Stdout := Some (CallerWriter 1)\<rparr>"

section \<open>Names for the stages of Start\<close>

text \<open>
  The two forwarding steps that open \<open>Start\<close>, the command as \<open>Start\<close> leaves it once the
  started flag is set and the nil streams are replaced, and the condition that both
  forwarding steps returned nil.
\<close>

definition forwardDir ::
  "('m, 'c) Execution \<Rightarrow> ('m, 'c) GenericCmd \<Rightarrow> error option outcome \<times> 'm" where
  "forwardDir E g =
     (if Dir g \<noteq> [] then setDir E (Dir g) (Method g) else (Return None, Method g))"

definition forwardEnv ::
  "('m, 'c) Execution \<Rightarrow> ('m, 'c) GenericCmd \<Rightarrow> 'm \<Rightarrow> error option outcome \<times> 'm" where
  "forwardEnv E g m = (case Env g of Some env \<Rightarrow> setEnv E env m | None \<Rightarrow> (Return None, m))"

definition withDefaults :: "('m, 'c) GenericCmd \<Rightarrow> ('m, 'c) GenericCmd" where
  "withDefaults g =
     g\<lparr>started := True, Stdin := Some (orDefault EmptyReader (Stdin g)),
       Stdout := Some (orDefault Discard (Stdout g)),
       Stderr := Some (orDefault Discard (Stderr g))\<rparr>"

definition forwardOk :: "('m, 'c) Execution \<Rightarrow> ('m, 'c) GenericCmd \<Rightarrow> bool" where
  "forwardOk E g =
     (fst (forwardDir E g) = Return None
      \<and> fst (forwardEnv E g (snd (forwardDir E g))) = Return None)"

definition NotStarted :: error where
  "NotStarted = ErrorString ''dexec: not started''"

definition AlreadyStarted :: error where
  "AlreadyStarted = ErrorString ''dexec: already started''"

section \<open>Start, stage by stage\<close>

lemma Start_dir_fail:
  assumes "forwardDir E g = (r, m1)" "r \<noteq> Return None"
  shows "Start E (g, h) = (r, g\<lparr>Method := m1\<rparr>, h)"
proof (cases r)
  case Panic
  with assms show ?thesis by (simp add: Start_def forwardDir_def)
next
  case (Return x)
  with assms obtain err where "x = Some err" by (cases x) auto
  with Return assms show ?thesis by (simp add: Start_def forwardDir_def)
qed

lemma Start_env_fail:
  assumes "forwardDir E g = (Return None, m1)" "forwardEnv E g m1 = (r, m2)" "r \<noteq> Return None"
  shows "Start E (g, h) = (r, g\<lparr>Method := m2\<rparr>, h)"
proof (cases r)
  case Panic
  with assms show ?thesis by (simp add: Start_def forwardDir_def forwardEnv_def)
next
  case (Return x)
  with assms obtain err where "x = Some err" by (cases x) auto
  with Return assms show ?thesis by (simp add: Start_def forwardDir_def forwardEnv_def)
qed

lemma Start_already_started:
  assumes "forwardDir E g = (Return None, m1)" "forwardEnv E g m1 = (Return None, m2)" "started g"
  shows "Start E (g, h) = (Return (Some AlreadyStarted), g\<lparr>Method := m2\<rparr>, h)"
  using assms by (simp add: Start_def forwardDir_def forwardEnv_def AlreadyStarted_def)

lemma Start_create_fail:
  assumes "forwardDir E g = (Return None, m1)" "forwardEnv E g m1 = (Return None, m2)"
    "\<not> started g" "create E (client g) (Path g # Args g) m2 = (r, m3)" "r \<noteq> Return None"
  shows "Start E (g, h) = (r, (withDefaults g)\<lparr>Method := m3\<rparr>, h)"
proof (cases r)
  case Panic
  with assms show ?thesis
    by (simp add: Start_def forwardDir_def forwardEnv_def withDefaults_def Let_def)
next
  case (Return x)
  with assms obtain err where "x = Some err" by (cases x) auto
  with Return assms show ?thesis
    by (simp add: Start_def forwardDir_def forwardEnv_def withDefaults_def Let_def)
qed

lemma Start_run:
  assumes "forwardDir E g = (Return None, m1)" "forwardEnv E g m1 = (Return None, m2)"
    "\<not> started g" "create E (client g) (Path g # Args g) m2 = (Return None, m3)"
    "run E (client g) (orDefault EmptyReader (Stdin g)) (orDefault Discard (Stdout g))
       (orDefault Discard (Stderr g)) m3 (bytes h) = (r, m4, b)"
  shows "Start E (g, h) = (r, (withDefaults g)\<lparr>Method := m4\<rparr>, h\<lparr>bytes := b\<rparr>)"
proof (cases r)
  case Panic
  with assms show ?thesis
    by (simp add: Start_def forwardDir_def forwardEnv_def withDefaults_def Let_def)
next
  case (Return x)
  with assms show ?thesis
    by (cases x) (simp_all add: Start_def forwardDir_def forwardEnv_def withDefaults_def Let_def)
qed

text \<open>The three ways \<open>Start\<close> can end.\<close>

lemma Start_cases:
  obtains
    (forward_fail) r m where "\<not> forwardOk E g" "r \<noteq> Return None"
      "Start E (g, h) = (r, g\<lparr>Method := m\<rparr>, h)"
  | (already) "forwardOk E g" "started g"
      "Start E (g, h) =
         (Return (Some AlreadyStarted), g\<lparr>Method := snd (forwardEnv E g (snd (forwardDir E g)))\<rparr>, h)"
  | (launched) r m b where "forwardOk E g" "\<not> started g"
      "Start E (g, h) = (r, (withDefaults g)\<lparr>Method := m\<rparr>, h\<lparr>bytes := b\<rparr>)"
proof -
  obtain r1 m1 where fd: "forwardDir E g = (r1, m1)" by (cases "forwardDir E g")
  obtain r2 m2 where fe: "forwardEnv E g m1 = (r2, m2)" by (cases "forwardEnv E g m1")
  show thesis
  proof (cases "r1 = Return None")
    case False
    with fd have nok: "\<not> forwardOk E g" by (simp add: forwardOk_def)
    have "Start E (g, h) = (r1, g\<lparr>Method := m1\<rparr>, h)"
      by (rule Start_dir_fail [OF fd False])
    then show thesis by (rule forward_fail [OF nok False])
  next
    case r1: True
    show thesis
    proof (cases "r2 = Return None")
      case False
      with fd fe r1 have nok: "\<not> forwardOk E g" by (simp add: forwardOk_def)
      have "Start E (g, h) = (r2, g\<lparr>Method := m2\<rparr>, h)"
        by (rule Start_env_fail [OF fd [unfolded r1] fe False])
      then show thesis by (rule forward_fail [OF nok False])
    next
      case r2: True
      with fd fe r1 have ok: "forwardOk E g" by (simp add: forwardOk_def)
      show thesis
      proof (cases "started g")
        case True
        have "Start E (g, h) = (Return (Some AlreadyStarted), g\<lparr>Method := m2\<rparr>, h)"
          by (rule Start_already_started [OF fd [unfolded r1] fe [unfolded r2] True])
        moreover have "snd (forwardEnv E g (snd (forwardDir E g))) = m2"
          by (simp add: fd fe)
        ultimately show thesis using already [OF ok True] by simp
      next
        case False
        obtain r3 m3 where cr: "create E (client g) (Path g # Args g) m2 = (r3, m3)"
          by (cases "create E (client g) (Path g # Args g) m2")
        show thesis
        proof (cases "r3 = Return None")
          case ne: False
          have "Start E (g, h) = (r3, (withDefaults g)\<lparr>Method := m3\<rparr>, h)"
            by (rule Start_create_fail [OF fd [unfolded r1] fe [unfolded r2] False cr ne])
          then have "Start E (g, h) = (r3, (withDefaults g)\<lparr>Method := m3\<rparr>, h\<lparr>bytes := bytes h\<rparr>)"
            by simp
          then show thesis by (rule launched [OF ok False])
        next
          case True
          obtain r4 m4 b where rn:
            "run E (client g) (orDefault EmptyReader (Stdin g)) (orDefault Discard (Stdout g))
               (orDefault Discard (Stderr g)) m3 (bytes h) = (r4, m4, b)"
            by (rule prod_cases3)
          have "Start E (g, h) = (r4, (withDefaults g)\<lparr>Method := m4\<rparr>, h\<lparr>bytes := b\<rparr>)"
            by (rule Start_run [OF fd [unfolded r1] fe [unfolded r2] False cr [unfolded True] rn])
          then show thesis by (rule launched [OF ok False])
        qed
      qed
    qed
  qed
qed

lemma Start_started_iff:
  "started (fst (snd (Start E (g, h)))) = (started g \<or> forwardOk E g)"
  by (cases rule: Start_cases [of E g h]) (simp_all add: withDefaults_def)

lemma Start_frame:
  "Dir (fst (snd (Start E (g, h)))) = Dir g \<and> Env (fst (snd (Start E (g, h)))) = Env g
   \<and> closeAfterWait (fst (snd (Start E (g, h)))) = closeAfterWait g
   \<and> client (fst (snd (Start E (g, h)))) = client g
   \<and> closeCalls (snd (snd (Start E (g, h)))) = closeCalls h
   \<and> fresh (snd (snd (Start E (g, h)))) = fresh h"
  by (cases rule: Start_cases [of E g h]) (simp_all add: withDefaults_def)

lemma Start_forwarded_twice:
  assumes "forwardOk E g" "forwardOk E (fst (snd (Start E (g, h))))"
  shows "fst (Start E (snd (Start E (g, h)))) = Return (Some AlreadyStarted)"
proof -
  obtain g' h' where s: "snd (Start E (g, h)) = (g', h')" by (cases "snd (Start E (g, h))")
  then have g': "g' = fst (snd (Start E (g, h)))" by simp
  with assms have st: "started g'" and ok: "forwardOk E g'" by (simp_all add: Start_started_iff)
  show ?thesis unfolding s
    by (cases rule: Start_cases [of E g' h']) (use st ok in simp_all)
qed

lemma forwardOk_no_Dir_Env: "Dir g = [] \<Longrightarrow> Env g = None \<Longrightarrow> forwardOk E g"
  by (simp add: forwardOk_def forwardDir_def forwardEnv_def)

text \<open>What holds of the strategy state once \<open>Start\<close> is over.\<close>

lemma Start_Method_preserved:
  assumes fd: "forwardDir E g = (r1, m1)" and p1: "P m1"
    and env: "\<And>e m. P m \<Longrightarrow> P (snd (setEnv E e m))"
    and cr: "\<And>c command m. P m \<Longrightarrow> P (snd (create E c command m))"
    and rn: "\<And>c i so se m b. P m \<Longrightarrow> P (fst (snd (run E c i so se m b)))"
  shows "P (Method (fst (snd (Start E (g, h)))))"
proof -
  obtain r2 m2 where fe: "forwardEnv E g m1 = (r2, m2)" by (cases "forwardEnv E g m1")
  have p2: "P m2"
  proof (cases "Env g")
    case None
    with fe p1 show ?thesis by (simp add: forwardEnv_def)
  next
    case (Some e)
    with fe have "m2 = snd (setEnv E e m1)" by (simp add: forwardEnv_def)
    with p1 show ?thesis by (simp add: env)
  qed
  show ?thesis
  proof (cases "r1 = Return None")
    case False
    show ?thesis by (simp add: Start_dir_fail [OF fd False] p1)
  next
    case r1: True
    show ?thesis
    proof (cases "r2 = Return None")
      case False
      show ?thesis by (simp add: Start_env_fail [OF fd [unfolded r1] fe False] p2)
    next
      case r2: True
      show ?thesis
      proof (cases "started g")
        case True
        show ?thesis
          by (simp add: Start_already_started [OF fd [unfolded r1] fe [unfolded r2] True] p2)
      next
        case False
        obtain r3 m3 where c: "create E (client g) (Path g # Args g) m2 = (r3, m3)"
          by (cases "create E (client g) (Path g # Args g) m2")
        have p3: "P m3" using cr [OF p2, of "client g" "Path g # Args g"] c by simp
        show ?thesis
        proof (cases "r3 = Return None")
          case ne: False
          show ?thesis
            by (simp add: Start_create_fail [OF fd [unfolded r1] fe [unfolded r2] False c ne] p3)
        next
          case True
          obtain r4 m4 b where rr:
            "run E (client g) (orDefault EmptyReader (Stdin g)) (orDefault Discard (Stdout g))
               (orDefault Discard (Stderr g)) m3 (bytes h) = (r4, m4, b)"
            by (rule prod_cases3)
          have p4: "P m4"
            using rn [OF p3, of "client g" "orDefault EmptyReader (Stdin g)"
                "orDefault Discard (Stdout g)" "orDefault Discard (Stderr g)" "bytes h"] rr
            by simp
          show ?thesis
            by (simp add: Start_run [OF fd [unfolded r1] fe [unfolded r2] False c [unfolded True] rr] p4)
        qed
      qed
    qed
  qed
qed

lemma createTask_create_opts: "opts (snd (createTask_create rs ovf c command t)) = opts t"
  by (simp add: createTask_create_def Let_def split: sum.split)

lemma createTask_run_opts: "opts (fst (snd (createTask_run c i so se t b))) = opts t"
  by (simp add: createTask_run_def Let_def split: sum.split option.split)

lemma createTask_setEnv_WorkingDir:
  "WorkingDir (opts (snd (createTask_setEnv e t))) = WorkingDir (opts t)"
  by (simp add: createTask_setEnv_def)

lemma createTask_setDir_sets:
  "d \<noteq> [] \<Longrightarrow> WorkingDir (opts (snd (createTask_setDir d t))) \<noteq> []"
  by (simp add: createTask_setDir_def)

lemma createTask_setDir_refuses:
  "WorkingDir (opts t) \<noteq> [] \<Longrightarrow>
     createTask_setDir d t = (Return (Some (ErrorString ''dexec: Config.WorkingDir already set'')), t)"
  by (simp add: createTask_setDir_def)

lemma Start_not_forwarded:
  "\<not> forwardOk E g \<Longrightarrow> fst (Start E (g, h)) \<noteq> Return None"
  by (cases rule: Start_cases [of E g h]) simp_all

lemma Start_not_forwarded_started:
  "\<not> forwardOk E g \<Longrightarrow> started (fst (snd (Start E (g, h)))) = started g"
  by (cases rule: Start_cases [of E g h]) simp_all

text \<open>The second \<open>Start\<close> on the namespaced-task strategy.\<close>

lemma second_Start_WorkingDir:
  assumes d: "Dir g \<noteq> []"
  shows "fst (Start (createTask_Execution rs ovf w) (snd (Start (createTask_Execution rs ovf w) (g, h))))
           = Return (Some (ErrorString ''dexec: Config.WorkingDir already set''))"
proof -
  let ?E = "createTask_Execution rs ovf w"
  obtain g' h' where s: "snd (Start ?E (g, h)) = (g', h')" by (cases "snd (Start ?E (g, h))")
  then have g': "g' = fst (snd (Start ?E (g, h)))" by simp
  obtain r1 m1 where fd: "forwardDir ?E g = (r1, m1)" by (cases "forwardDir ?E g")
  with d have "m1 = snd (createTask_setDir (Dir g) (Method g))"
    by (simp add: forwardDir_def createTask_Execution_def)
  with d have p1: "WorkingDir (opts m1) \<noteq> []" by (simp add: createTask_setDir_sets)
  have wd: "WorkingDir (opts (Method g')) \<noteq> []"
    unfolding g'
    by (rule Start_Method_preserved [where P = "\<lambda>m. WorkingDir (opts m) \<noteq> []", OF fd p1])
      (simp_all add: createTask_Execution_def createTask_setEnv_WorkingDir
        createTask_create_opts createTask_run_opts)
  have dir: "Dir g' = Dir g" unfolding g' using Start_frame [of ?E g h] by simp
  have "forwardDir ?E g' =
          (Return (Some (ErrorString ''dexec: Config.WorkingDir already set'')), Method g')"
    using d dir wd by (simp add: forwardDir_def createTask_Execution_def createTask_setDir_refuses)
  then have "Start ?E (g', h') =
          (Return (Some (ErrorString ''dexec: Config.WorkingDir already set'')),
           g'\<lparr>Method := Method g'\<rparr>, h')"
    by (rule Start_dir_fail) simp
  then show ?thesis unfolding s by simp
qed

lemma createTask_setEnv_sets:
  "e \<noteq> [] \<Longrightarrow> opts_Env (opts (snd (createTask_setEnv e t))) \<noteq> []"
  by (simp add: createTask_setEnv_def)

lemma createTask_setEnv_refuses:
  "opts_Env (opts t) \<noteq> [] \<Longrightarrow>
     createTask_setEnv e t = (Return (Some (ErrorString ''dexec: Config.Env already set'')), t)"
  by (simp add: createTask_setEnv_def)

lemma second_Start_Env:
  assumes d: "Dir g = []" and e: "Env g = Some env" "env \<noteq> []"
  shows "fst (Start (createTask_Execution rs ovf w) (snd (Start (createTask_Execution rs ovf w) (g, h))))
           = Return (Some (ErrorString ''dexec: Config.Env already set''))"
proof -
  let ?E = "createTask_Execution rs ovf w"
  let ?P = "\<lambda>m. opts_Env (opts m) \<noteq> []"
  obtain g' h' where s: "snd (Start ?E (g, h)) = (g', h')" by (cases "snd (Start ?E (g, h))")
  then have g': "g' = fst (snd (Start ?E (g, h)))" by simp
  have fd: "forwardDir ?E g = (Return None, Method g)" using d by (simp add: forwardDir_def)
  obtain r2 m2 where fe: "forwardEnv ?E g (Method g) = (r2, m2)"
    by (cases "forwardEnv ?E g (Method g)")
  with e have "m2 = snd (createTask_setEnv env (Method g))"
    by (simp add: forwardEnv_def createTask_Execution_def)
  with e have p2: "?P m2" by (simp add: createTask_setEnv_sets)
  have cr: "?P (snd (create ?E c command m))" if "?P m" for c command m
    using that by (simp add: createTask_Execution_def createTask_create_opts)
  have rn: "?P (fst (snd (run ?E c i so se m b)))" if "?P m" for c i so se m b
    using that by (simp add: createTask_Execution_def createTask_run_opts)
  have env': "?P (Method g')"
  proof (cases "r2 = Return None")
    case False
    show ?thesis unfolding g' by (simp add: Start_env_fail [OF fd fe False] p2)
  next
    case r2: True
    show ?thesis
    proof (cases "started g")
      case True
      show ?thesis unfolding g'
        by (simp add: Start_already_started [OF fd fe [unfolded r2] True] p2)
    next
      case False
      obtain r3 m3 where c: "create ?E (client g) (Path g # Args g) m2 = (r3, m3)"
        by (cases "create ?E (client g) (Path g # Args g) m2")
      have p3: "?P m3" using cr [OF p2, of "client g" "Path g # Args g"] c by simp
      show ?thesis
      proof (cases "r3 = Return None")
        case ne: False
        show ?thesis unfolding g'
          by (simp add: Start_create_fail [OF fd fe [unfolded r2] False c ne] p3)
      next
        case True
        obtain r4 m4 b where rr:
          "run ?E (client g) (orDefault EmptyReader (Stdin g)) (orDefault Discard (Stdout g))
             (orDefault Discard (Stderr g)) m3 (bytes h) = (r4, m4, b)"
          by (rule prod_cases3)
        have p4: "?P m4"
          using rn [OF p3, of "client g" "orDefault EmptyReader (Stdin g)"
              "orDefault Discard (Stdout g)" "orDefault Discard (Stderr g)" "bytes h"] rr
          by simp
        show ?thesis unfolding g'
          by (simp add: Start_run [OF fd fe [unfolded r2] False c [unfolded True] rr] p4)
      qed
    qed
  qed
  have fr: "Dir g' = [] \<and> Env g' = Some env"
    unfolding g' using Start_frame [of ?E g h] d e by simp
  then have fd': "forwardDir ?E g' = (Return None, Method g')" by (simp add: forwardDir_def)
  have fe': "forwardEnv ?E g' (Method g') =
          (Return (Some (ErrorString ''dexec: Config.Env already set'')), Method g')"
    using fr env' by (simp add: forwardEnv_def createTask_Execution_def createTask_setEnv_refuses)
  have "Start ?E (g', h') =
          (Return (Some (ErrorString ''dexec: Config.Env already set'')),
           g'\<lparr>Method := Method g'\<rparr>, h')"
    by (rule Start_env_fail [OF fd' fe']) simp
  then show ?thesis unfolding s by simp
qed

section \<open>Wait and the closers\<close>

lemma closeCalls_closeFds:
  "closeCalls (closeFds l h) w = closeCalls h w + count_list l w"
  by (induction l arbitrary: h) (auto simp: Close_def)

lemma bytes_closeFds: "bytes (closeFds l h) = bytes h"
  by (induction l arbitrary: h) (auto simp: Close_def)

lemma fresh_closeFds: "fresh (closeFds l h) = fresh h"
  by (induction l arbitrary: h) (auto simp: Close_def)

lemma Wait_not_started:
  "\<not> started g \<Longrightarrow> fst (Wait E (g, h)) = Return (Some NotStarted)"
  by (simp add: Wait_def Let_def NotStarted_def)

section \<open>The claims\<close>

lemmas stub_defs = stub_createFails_def stub_exits_def stubExecution_def cmd_sh_def cmd_dir_def
  Command_def stub0_def heap0_def orDefault_def writeTo_def

lemmas task_defs = taskExecution_ok_def createTask_Execution_def cmd_work_def Command_def
  ByCreatingTask_def opts_alpine_def client_ok_def container_ok_def task_ok_def process_ok_def
  createTask_setDir_def createTask_setEnv_def createTask_create_def createTask_run_def
  createContainer_def createTask_createTask_def createProcessSpec_def heap0_def orDefault_def
  task_exits0_def

subsection \<open>Wait without a successful Start\<close>

text \<open>
  Claim C1 says that \<open>Wait\<close> answers "dexec: not started" whenever \<open>Start\<close> was never
  called or returned an error, a failure in \<open>create\<close> or \<open>run\<close> included. \<open>Start\<close> sets the
  started flag before it calls \<open>create\<close>, so that is not what happens: on a new command
  whose strategy fails in \<open>create\<close>, \<open>Start\<close> returns the error and \<open>Wait\<close> then goes on to
  the strategy's \<open>wait\<close> and returns what that answers.
\<close>

theorem C1_counterexample:
  "\<not> started cmd_sh
   \<and> fst (Start stub_createFails (cmd_sh, heap0))
       = Return (Some (ErrorString ''dexec: failed to create container''))
   \<and> fst (Wait stub_createFails (snd (Start stub_createFails (cmd_sh, heap0))))
       = Return (Some (ErrorString ''dexec: container is not attached''))
   \<and> fst (Wait stub_createFails (snd (Start stub_createFails (cmd_sh, heap0))))
       \<noteq> Return (Some (ErrorString ''dexec: not started''))"
  by (simp add: Start_def Wait_def stub_defs)

text \<open>
  Claim C1, amended: on a command whose started flag is not set, \<open>Wait\<close> returns
  "dexec: not started". A \<open>Start\<close> that ends in the forwarding of \<open>Dir\<close> and \<open>Env\<close> (a
  setter did not return nil) returns without success and leaves the flag unset, so \<open>Wait\<close>
  still returns "dexec: not started" after it. A \<open>Start\<close> that gets past the forwarding
  sets the flag, whatever \<open>create\<close> and \<open>run\<close> return.
\<close>

theorem C1_Wait_NotStarted:
  assumes "\<not> started g"
  shows "fst (Wait E (g, h)) = Return (Some (ErrorString ''dexec: not started''))
         \<and> (\<not> forwardOk E g \<longrightarrow>
              fst (Start E (g, h)) \<noteq> Return None
              \<and> fst (Wait E (snd (Start E (g, h)))) = Return (Some (ErrorString ''dexec: not started'')))
         \<and> (forwardOk E g \<longrightarrow> started (fst (snd (Start E (g, h)))))"
proof -
  have a: "fst (Wait E (g, h)) = Return (Some NotStarted)"
    using assms by (rule Wait_not_started)
  have b: "fst (Wait E (snd (Start E (g, h)))) = Return (Some NotStarted)" if nf: "\<not> forwardOk E g"
  proof -
    obtain g' h' where s: "snd (Start E (g, h)) = (g', h')" by (cases "snd (Start E (g, h))")
    then have "g' = fst (snd (Start E (g, h)))" by simp
    with assms nf have "\<not> started g'" by (simp add: Start_not_forwarded_started)
    then show ?thesis unfolding s by (rule Wait_not_started)
  qed
  show ?thesis
    using a b Start_not_forwarded [of E g h] Start_started_iff [of E g h]
    by (simp add: NotStarted_def)
qed

theorem C1_Wait_NotStarted_witness:
  "\<not> started cmd_dir \<and> \<not> forwardOk (stub_exits 0) cmd_dir
   \<and> fst (Start (stub_exits 0) (cmd_dir, heap0))
       = Return (Some (ErrorString ''dexec: Config.WorkingDir already set''))
   \<and> fst (Wait (stub_exits 0) (snd (Start (stub_exits 0) (cmd_dir, heap0))))
       = Return (Some (ErrorString ''dexec: not started''))
   \<and> \<not> started cmd_sh \<and> forwardOk (stub_exits 0) cmd_sh
   \<and> started (fst (snd (Start (stub_exits 0) (cmd_sh, heap0))))"
proof -
  have nd: "\<not> started cmd_dir" and ns: "\<not> started cmd_sh" by (simp_all add: stub_defs)
  have nf: "\<not> forwardOk (stub_exits 0) cmd_dir"
    by (simp add: forwardOk_def forwardDir_def forwardEnv_def stub_defs)
  have ok: "forwardOk (stub_exits 0) cmd_sh"
    by (simp add: forwardOk_def forwardDir_def forwardEnv_def stub_defs)
  have st: "fst (Start (stub_exits 0) (cmd_dir, heap0))
       = Return (Some (ErrorString ''dexec: Config.WorkingDir already set''))"
    by (simp add: Start_def stub_defs)
  show ?thesis
    using C1_Wait_NotStarted [OF nd, of "stub_exits 0" heap0]
      C1_Wait_NotStarted [OF ns, of "stub_exits 0" heap0] nd ns nf ok st
    by simp
qed

subsection \<open>Start, called twice\<close>

text \<open>
  Claim C2 says that a second \<open>Start\<close> always returns "dexec: already started". The
  setters are called before the flag is looked at: on the namespaced-task strategy, a
  command with a working directory starts, and its second \<open>Start\<close> returns the refusal of
  \<open>setDir\<close> instead.
\<close>

theorem C2_counterexample:
  "fst (Start taskExecution_ok (cmd_work, heap0)) = Return None
   \<and> fst (Start taskExecution_ok (snd (Start taskExecution_ok (cmd_work, heap0))))
       = Return (Some (ErrorString ''dexec: Config.WorkingDir already set''))
   \<and> fst (Start taskExecution_ok (snd (Start taskExecution_ok (cmd_work, heap0))))
       \<noteq> Return (Some (ErrorString ''dexec: already started''))"
  by (simp add: Start_def task_defs Let_def)

text \<open>
  Claim C2, amended: when the forwarding of \<open>Dir\<close> and \<open>Env\<close> returns nil in both calls (as
  it does when \<open>Dir\<close> is empty and \<open>Env\<close> is nil), the second \<open>Start\<close> returns
  "dexec: already started".
\<close>

theorem C2_second_Start:
  assumes "forwardOk E g" and "forwardOk E (fst (snd (Start E (g, h))))"
  shows "fst (Start E (snd (Start E (g, h)))) = Return (Some (ErrorString ''dexec: already started''))"
  using Start_forwarded_twice [OF assms] by (simp add: AlreadyStarted_def)

theorem C2_second_Start_witness:
  "forwardOk (stub_exits 0) cmd_sh
   \<and> forwardOk (stub_exits 0) (fst (snd (Start (stub_exits 0) (cmd_sh, heap0))))
   \<and> fst (Start (stub_exits 0) (snd (Start (stub_exits 0) (cmd_sh, heap0))))
       = Return (Some (ErrorString ''dexec: already started''))"
proof -
  have a: "forwardOk (stub_exits 0) cmd_sh"
    by (rule forwardOk_no_Dir_Env) (simp_all add: stub_defs)
  have b: "forwardOk (stub_exits 0) (fst (snd (Start (stub_exits 0) (cmd_sh, heap0))))"
    by (rule forwardOk_no_Dir_Env) (simp_all add: Start_frame, simp_all add: stub_defs)
  show ?thesis using C2_second_Start [OF a b] a b by simp
qed

subsection \<open>Wait on a started command\<close>

text \<open>
  Claim C3: on a started command, when the strategy's \<open>wait\<close> returns the exit code \<open>ec\<close>
  and the error \<open>err\<close>, \<open>Wait\<close> returns \<open>err\<close> itself if it is not nil, nil if \<open>ec\<close> is 0,
  and otherwise an \<open>ExitError\<close> with \<open>ExitCode = ec\<close>; and in each case \<open>Close\<close> has been
  called on every closer of \<open>closeAfterWait\<close> (once for each time it is listed) when
  \<open>Wait\<close> returns.
\<close>

theorem C3_Wait_started:
  assumes "started g"
    and "wait E (client g) (Method g) (bytes h) = (Return (ec, err), m, b)"
  shows "fst (Wait E (g, h)) =
           Return (case err of Some e \<Rightarrow> Some e
                   | None \<Rightarrow> if ec = 0 then None else Some (ExitError ec []))
         \<and> (\<forall>w. closeCalls (snd (snd (Wait E (g, h)))) w
                  = closeCalls h w + count_list (closeAfterWait g) w)"
  using assms
  by (cases err) (simp_all add: Wait_def Let_def closeCalls_closeFds)

theorem C3_Wait_started_witness:
  "started (fst (running 3))
   \<and> fst (Wait (stub_exits 3) (running 3)) = Return (Some (ExitError 3 []))
   \<and> closeAfterWait (fst (running 3)) = [PipeWriter 0]
   \<and> closeCalls (snd (running 3)) (PipeWriter 0) = 0
   \<and> closeCalls (snd (snd (Wait (stub_exits 3) (running 3)))) (PipeWriter 0) = 1"
proof -
  obtain g h where r: "running 3 = (g, h)" by (cases "running 3")
  have g: "g = fst (running 3)" and h: "h = snd (running 3)" using r by simp_all
  have st: "started g"
    unfolding g by (simp add: running_def piped_def StdoutPipe_def Start_def stub_defs Let_def)
  have w: "wait (stub_exits 3) (client g) (Method g) (bytes h)
             = (Return (3, None), Method g,
                writeTo (stub_stderr (Method g)) ''boom'' (writeTo (stub_stdout (Method g)) ''out'' (bytes h)))"
    by (simp add: stub_exits_def stubExecution_def)
  have cl: "closeAfterWait g = [PipeWriter 0]"
    unfolding g by (simp add: running_def piped_def StdoutPipe_def Start_def stub_defs Let_def)
  have c0: "closeCalls h (PipeWriter 0) = 0"
    unfolding h by (simp add: running_def piped_def StdoutPipe_def Start_def stub_defs Let_def)
  show ?thesis
    using C3_Wait_started [OF st w] st cl c0 unfolding r by simp
qed

subsection \<open>The setters come before the started flag\<close>

text \<open>
  Claim C10: \<open>Start\<close> forwards \<open>Dir\<close> (when not empty) and \<open>Env\<close> (when not nil) to the
  strategy before it looks at the started flag, so an error (or panic) of a setter is what
  \<open>Start\<close> returns, started or not. On the namespaced-task strategy the setters are called
  again by a second \<open>Start\<close>: for every command with a non-empty \<open>Dir\<close> the second call
  returns "dexec: Config.WorkingDir already set", and for a command with an empty \<open>Dir\<close>
  and a non-empty \<open>Env\<close> it returns "dexec: Config.Env already set"; neither is
  "dexec: already started".
\<close>

theorem C10_setters_before_started_check:
  "(forwardDir E g = (r, ma) \<longrightarrow> r \<noteq> Return None \<longrightarrow>
      Start E (g, h) = (r, g\<lparr>Method := ma\<rparr>, h))
   \<and> (forwardDir E g = (Return None, ma) \<longrightarrow> forwardEnv E g ma = (r, mb) \<longrightarrow> r \<noteq> Return None \<longrightarrow>
      Start E (g, h) = (r, g\<lparr>Method := mb\<rparr>, h))
   \<and> (Dir t \<noteq> [] \<longrightarrow>
      fst (Start (createTask_Execution rs ovf w) (snd (Start (createTask_Execution rs ovf w) (t, h'))))
        = Return (Some (ErrorString ''dexec: Config.WorkingDir already set'')))
   \<and> (Dir t = [] \<longrightarrow> Env t = Some env \<longrightarrow> env \<noteq> [] \<longrightarrow>
      fst (Start (createTask_Execution rs ovf w) (snd (Start (createTask_Execution rs ovf w) (t, h'))))
        = Return (Some (ErrorString ''dexec: Config.Env already set'')))"
  using Start_dir_fail [of E g r ma h] Start_env_fail [of E g ma r mb h]
    second_Start_WorkingDir [of t rs ovf w h'] second_Start_Env [of t env rs ovf w h']
  by blast

theorem C10_setters_before_started_check_witness:
  "started cmd_dir_started
   \<and> forwardDir (stub_exits 0) cmd_dir_started
       = (Return (Some (ErrorString ''dexec: Config.WorkingDir already set'')), Method cmd_dir_started)
   \<and> fst (Start (stub_exits 0) (cmd_dir_started, heap0))
       = Return (Some (ErrorString ''dexec: Config.WorkingDir already set''))
   \<and> started cmd_env_started
   \<and> forwardDir (stub_exits 0) cmd_env_started = (Return None, Method cmd_env_started)
   \<and> forwardEnv (stub_exits 0) cmd_env_started (Method cmd_env_started)
       = (Return (Some (ErrorString ''dexec: Config.Env already set'')), Method cmd_env_started)
   \<and> fst (Start (stub_exits 0) (cmd_env_started, heap0))
       = Return (Some (ErrorString ''dexec: Config.Env already set''))
   \<and> Dir cmd_work \<noteq> []
   \<and> fst (Start taskExecution_ok (snd (Start taskExecution_ok (cmd_work, heap0))))
       = Return (Some (ErrorString ''dexec: Config.WorkingDir already set''))
   \<and> Dir cmd_work_env = [] \<and> Env cmd_work_env = Some [''A=1'']
   \<and> fst (Start taskExecution_ok (snd (Start taskExecution_ok (cmd_work_env, heap0))))
       = Return (Some (ErrorString ''dexec: Config.Env already set''))"
proof -
  have a: "started cmd_dir_started" "started cmd_env_started"
    by (simp_all add: cmd_dir_started_def cmd_env_started_def)
  have b: "forwardDir (stub_exits 0) cmd_dir_started
       = (Return (Some (ErrorString ''dexec: Config.WorkingDir already set'')), Method cmd_dir_started)"
    by (simp add: forwardDir_def cmd_dir_started_def stub_defs)
  have c: "forwardDir (stub_exits 0) cmd_env_started = (Return None, Method cmd_env_started)"
    by (simp add: forwardDir_def cmd_env_started_def stub_defs)
  have d: "forwardEnv (stub_exits 0) cmd_env_started (Method cmd_env_started)
       = (Return (Some (ErrorString ''dexec: Config.Env already set'')), Method cmd_env_started)"
    by (simp add: forwardEnv_def cmd_env_started_def stub_defs)
  have e: "Dir cmd_work \<noteq> []" "Dir cmd_work_env = []" "Env cmd_work_env = Some [''A=1'']"
    by (simp_all add: cmd_work_def cmd_work_env_def Command_def)
  note w1 = C10_setters_before_started_check
      [where E = "stub_exits 0" and g = cmd_dir_started and h = heap0 and ma = "Method cmd_dir_started"
        and r = "Return (Some (ErrorString ''dexec: Config.WorkingDir already set''))"
        and t = cmd_work and rs = "\<lambda>n. ''abcdef''" and ovf = 0 and w = task_exits0 and h' = heap0]
  note w2 = C10_setters_before_started_check
      [where E = "stub_exits 0" and g = cmd_env_started and h = heap0 and ma = "Method cmd_env_started"
        and mb = "Method cmd_env_started"
        and r = "Return (Some (ErrorString ''dexec: Config.Env already set''))"
        and t = cmd_work_env and env = "[''A=1'']"
        and rs = "\<lambda>n. ''abcdef''" and ovf = 0 and w = task_exits0 and h' = heap0]
  show ?thesis
    using w1 w2 a b c d e by (simp add: taskExecution_ok_def)
qed

subsection \<open>cleanup of the namespaced-task strategy\<close>

lemma cleanup_deletes_no_lease: "LeaseDone \<notin> set (snd (cleanup_deletes t))"
  by (simp add: cleanup_deletes_def split: option.split)

lemma cleanup_deletes_swallowed:
  assumes "task t = Some tk" "container t = Some cont"
    "swallowed (task_Delete tk)" "swallowed (container_Delete cont)"
  shows "cleanup_deletes t = (Return None, [TaskDelete, ContainerDelete])"
  using assms by (auto simp: cleanup_deletes_def swallowed_def split: option.splits)

lemma cleanup_deletes_task_error:
  assumes "task t = Some tk" "task_Delete tk = Some err" "\<not> IsNotFound err"
  shows "cleanup_deletes t = (Return (Some (Errorf ''error deleting task'' err)), [TaskDelete])"
  using assms by (simp add: cleanup_deletes_def)

lemma cleanup_lease_last:
  assumes "doneFunc t \<noteq> None" "ctx t \<noteq> None"
  shows "\<exists>calls. snd (createTask_cleanup t) = calls @ [LeaseDone] \<and> LeaseDone \<notin> set calls"
proof -
  obtain r cs where cd: "cleanup_deletes t = (r, cs)" by (cases "cleanup_deletes t")
  then have nl: "LeaseDone \<notin> set cs" using cleanup_deletes_no_lease [of t] by simp
  show ?thesis
  proof (cases "cni t \<noteq> None \<and> net t \<noteq> None")
    case False
    with assms cd have "snd (createTask_cleanup t) = cs @ [LeaseDone]"
      by (auto simp: createTask_cleanup_def Let_def)
    with nl show ?thesis by blast
  next
    case plugin: True
    show ?thesis
    proof (cases "container t")
      case None
      with assms plugin have "snd (createTask_cleanup t) = [] @ [LeaseDone]"
        by (auto simp: createTask_cleanup_def Let_def)
      then show ?thesis by (metis empty_iff list.set(1))
    next
      case (Some cont)
      with assms plugin cd have "snd (createTask_cleanup t) = (CniRemove # cs) @ [LeaseDone]"
        by (auto simp: createTask_cleanup_def Let_def)
      moreover from nl have "LeaseDone \<notin> set (CniRemove # cs)" by simp
      ultimately show ?thesis by blast
    qed
  qed
qed

lemma cleanup_rev1_lease_last:
  assumes "doneFunc t \<noteq> None"
  shows "\<exists>calls. snd (createTask_cleanup_rev1 t) = calls @ [LeaseDone] \<and> LeaseDone \<notin> set calls"
proof -
  obtain r cs where cd: "cleanup_deletes t = (r, cs)" by (cases "cleanup_deletes t")
  then have nl: "LeaseDone \<notin> set cs" using cleanup_deletes_no_lease [of t] by simp
  from assms cd have "snd (createTask_cleanup_rev1 t) = cs @ [LeaseDone]"
    by (auto simp: createTask_cleanup_rev1_def)
  with nl show ?thesis by blast
qed

lemma cleanup_swallowed:
  assumes "task t = Some tk" "container t = Some cont"
    "swallowed (task_Delete tk)" "swallowed (container_Delete cont)"
  shows "fst (createTask_cleanup t) = Return None"
    and "doneFunc t \<noteq> None \<Longrightarrow> fst (createTask_cleanup_rev1 t) = Return None"
  using assms(2) cleanup_deletes_swallowed [OF assms]
  by (auto simp: createTask_cleanup_def createTask_cleanup_rev1_def Let_def)

lemma cleanup_task_error:
  assumes "task t = Some tk" "container t = Some cont" "task_Delete tk = Some err" "\<not> IsNotFound err"
  shows "fst (createTask_cleanup t) = Return (Some (Errorf ''error deleting task'' err))"
    and "ContainerDelete \<notin> set (snd (createTask_cleanup t))"
    and "doneFunc t \<noteq> None \<Longrightarrow>
           fst (createTask_cleanup_rev1 t) = Return (Some (Errorf ''error deleting task'' err))
           \<and> ContainerDelete \<notin> set (snd (createTask_cleanup_rev1 t))"
  using assms(2) cleanup_deletes_task_error [OF assms(1,3,4)]
  by (auto simp: createTask_cleanup_def createTask_cleanup_rev1_def Let_def)

lemma createTask_create_lease:
  "WithLease c = Inr lease \<Longrightarrow>
     doneFunc (snd (createTask_create rs ovf c command t)) = Some lease
     \<and> ctx (snd (createTask_create rs ovf c command t)) = Some lease"
  by (simp add: createTask_create_def Let_def split: sum.split)

lemma createTask_run_lease:
  "doneFunc (fst (snd (createTask_run c i so se t b))) = doneFunc t
   \<and> ctx (fst (snd (createTask_run c i so se t b))) = ctx t"
  by (simp add: createTask_run_def Let_def split: sum.split option.split)

lemma lease_released_after_create:
  assumes "WithLease c = Inr lease"
  shows "\<exists>calls. snd (createTask_cleanup (fst (snd (createTask_run c i so se
             (snd (createTask_create rs ovf c command t)) b)))) = calls @ [LeaseDone]
           \<and> LeaseDone \<notin> set calls"
  by (rule cleanup_lease_last)
    (simp_all add: createTask_run_lease createTask_create_lease [OF assms])

text \<open>
  Claim C4: \<open>cleanup\<close> of the namespaced-task strategy releases the lease it holds (the
  stored \<open>doneFunc\<close> with its context) by a deferred call, as the last call and once,
  whatever the deletes answer and also when the body panics; \<open>create\<close> stores both when
  it acquires the lease, and \<open>run\<close> keeps them. It returns nil when the task
  delete and the container delete each succeed or fail with \<open>NotFound\<close>. When the task
  delete fails with another error, it returns that error wrapped as "error deleting task"
  and does not call the container delete. The same holds of the earlier revision of
  \<open>cleanup\<close>, whose \<open>defer\<close> has no guard.
\<close>

theorem C4_cleanup:
  "(doneFunc t \<noteq> None \<longrightarrow> ctx t \<noteq> None \<longrightarrow>
      (\<exists>calls. snd (createTask_cleanup t) = calls @ [LeaseDone] \<and> LeaseDone \<notin> set calls))
   \<and> (task t = Some tk \<longrightarrow> container t = Some cont \<longrightarrow>
        swallowed (task_Delete tk) \<longrightarrow> swallowed (container_Delete cont) \<longrightarrow>
        fst (createTask_cleanup t) = Return None)
   \<and> (task t = Some tk \<longrightarrow> container t = Some cont \<longrightarrow>
        task_Delete tk = Some err \<longrightarrow> \<not> IsNotFound err \<longrightarrow>
        fst (createTask_cleanup t) = Return (Some (Errorf ''error deleting task'' err))
        \<and> ContainerDelete \<notin> set (snd (createTask_cleanup t)))
   \<and> (doneFunc t \<noteq> None \<longrightarrow>
        (\<exists>calls. snd (createTask_cleanup_rev1 t) = calls @ [LeaseDone] \<and> LeaseDone \<notin> set calls)
        \<and> (task t = Some tk \<longrightarrow> container t = Some cont \<longrightarrow>
             swallowed (task_Delete tk) \<longrightarrow> swallowed (container_Delete cont) \<longrightarrow>
             fst (createTask_cleanup_rev1 t) = Return None)
        \<and> (task t = Some tk \<longrightarrow> container t = Some cont \<longrightarrow>
             task_Delete tk = Some err \<longrightarrow> \<not> IsNotFound err \<longrightarrow>
             fst (createTask_cleanup_rev1 t) = Return (Some (Errorf ''error deleting task'' err))
             \<and> ContainerDelete \<notin> set (snd (createTask_cleanup_rev1 t))))
   \<and> (WithLease c = Inr lease \<longrightarrow>
        (\<exists>calls. snd (createTask_cleanup (fst (snd (createTask_run c i so se
             (snd (createTask_create rs ovf c command t')) b)))) = calls @ [LeaseDone]
           \<and> LeaseDone \<notin> set calls))"
proof (intro conjI impI)
  show "\<exists>calls. snd (createTask_cleanup (fst (snd (createTask_run c i so se
             (snd (createTask_create rs ovf c command t')) b)))) = calls @ [LeaseDone]
           \<and> LeaseDone \<notin> set calls"
    if "WithLease c = Inr lease"
    using that by (rule lease_released_after_create)
  show "\<exists>calls. snd (createTask_cleanup t) = calls @ [LeaseDone] \<and> LeaseDone \<notin> set calls"
    if "doneFunc t \<noteq> None" "ctx t \<noteq> None"
    using that by (rule cleanup_lease_last)
  show "\<exists>calls. snd (createTask_cleanup_rev1 t) = calls @ [LeaseDone] \<and> LeaseDone \<notin> set calls"
    if "doneFunc t \<noteq> None"
    using that by (rule cleanup_rev1_lease_last)
  show "fst (createTask_cleanup t) = Return None"
    if "task t = Some tk" "container t = Some cont"
      "swallowed (task_Delete tk)" "swallowed (container_Delete cont)"
    using that by (rule cleanup_swallowed(1))
  show "fst (createTask_cleanup_rev1 t) = Return None"
    if "doneFunc t \<noteq> None" "task t = Some tk" "container t = Some cont"
      "swallowed (task_Delete tk)" "swallowed (container_Delete cont)"
    using cleanup_swallowed(2) [OF that(2-5) that(1)] .
  show "fst (createTask_cleanup t) = Return (Some (Errorf ''error deleting task'' err))"
    if "task t = Some tk" "container t = Some cont" "task_Delete tk = Some err" "\<not> IsNotFound err"
    using that by (rule cleanup_task_error(1))
  show "ContainerDelete \<notin> set (snd (createTask_cleanup t))"
    if "task t = Some tk" "container t = Some cont" "task_Delete tk = Some err" "\<not> IsNotFound err"
    using that by (rule cleanup_task_error(2))
  show "fst (createTask_cleanup_rev1 t) = Return (Some (Errorf ''error deleting task'' err))"
    if "doneFunc t \<noteq> None" "task t = Some tk" "container t = Some cont"
      "task_Delete tk = Some err" "\<not> IsNotFound err"
    using cleanup_task_error(3) [OF that(2-5) that(1)] by simp
  show "ContainerDelete \<notin> set (snd (createTask_cleanup_rev1 t))"
    if "doneFunc t \<noteq> None" "task t = Some tk" "container t = Some cont"
      "task_Delete tk = Some err" "\<not> IsNotFound err"
    using cleanup_task_error(3) [OF that(2-5) that(1)] by simp
qed

lemmas held_defs = task_held_def ByCreatingTask_def task_ok_def container_ok_def swallowed_def

theorem C4_cleanup_witness:
  "doneFunc (task_held (Some ErrNotFound)) \<noteq> None \<and> ctx (task_held (Some ErrNotFound)) \<noteq> None
   \<and> task (task_held (Some ErrNotFound)) = Some (task_ok\<lparr>task_Delete := Some ErrNotFound\<rparr>)
   \<and> container (task_held (Some ErrNotFound)) = Some container_ok
   \<and> swallowed (Some ErrNotFound) \<and> swallowed (container_Delete container_ok)
   \<and> createTask_cleanup (task_held (Some ErrNotFound))
        = (Return None, [TaskDelete, ContainerDelete, LeaseDone])
   \<and> createTask_cleanup_rev1 (task_held (Some ErrNotFound))
        = (Return None, [TaskDelete, ContainerDelete, LeaseDone])
   \<and> \<not> IsNotFound (ErrorString ''unit test'')
   \<and> createTask_cleanup (task_held (Some (ErrorString ''unit test'')))
        = (Return (Some (Errorf ''error deleting task'' (ErrorString ''unit test''))),
           [TaskDelete, LeaseDone])
   \<and> createTask_cleanup_rev1 (task_held (Some (ErrorString ''unit test'')))
        = (Return (Some (Errorf ''error deleting task'' (ErrorString ''unit test''))),
           [TaskDelete, LeaseDone])
   \<and> WithLease client_ok = Inr 7
   \<and> createTask_cleanup (fst (snd (createTask_run client_ok EmptyReader Discard Discard
          (snd (createTask_create (\<lambda>n. ''abcdef'') 0 client_ok [''sh''] (ByCreatingTask opts_alpine)))
          (bytes heap0))))
        = (Return None, [TaskDelete, ContainerDelete, LeaseDone])"
proof -
  have l: "WithLease client_ok = Inr 7" by (simp add: client_ok_def)
  have r: "createTask_cleanup (fst (snd (createTask_run client_ok EmptyReader Discard Discard
          (snd (createTask_create (\<lambda>n. ''abcdef'') 0 client_ok [''sh''] (ByCreatingTask opts_alpine)))
          (bytes heap0))))
        = (Return None, [TaskDelete, ContainerDelete, LeaseDone])"
    by (simp add: createTask_cleanup_def cleanup_deletes_def Let_def task_defs)
  have a: "createTask_cleanup (task_held (Some ErrNotFound))
        = (Return None, [TaskDelete, ContainerDelete, LeaseDone])"
    "createTask_cleanup_rev1 (task_held (Some ErrNotFound))
        = (Return None, [TaskDelete, ContainerDelete, LeaseDone])"
    "createTask_cleanup (task_held (Some (ErrorString ''unit test'')))
        = (Return (Some (Errorf ''error deleting task'' (ErrorString ''unit test''))),
           [TaskDelete, LeaseDone])"
    "createTask_cleanup_rev1 (task_held (Some (ErrorString ''unit test'')))
        = (Return (Some (Errorf ''error deleting task'' (ErrorString ''unit test''))),
           [TaskDelete, LeaseDone])"
    by (simp_all add: createTask_cleanup_def createTask_cleanup_rev1_def Let_def
        cleanup_deletes_def held_defs)
  note w1 = C4_cleanup [where t = "task_held (Some ErrNotFound)"
      and tk = "task_ok\<lparr>task_Delete := Some ErrNotFound\<rparr>" and cont = container_ok]
  note w2 = C4_cleanup [where t = "task_held (Some (ErrorString ''unit test''))"
      and tk = "task_ok\<lparr>task_Delete := Some (ErrorString ''unit test'')\<rparr>"
      and cont = container_ok and err = "ErrorString ''unit test''" and c = client_ok and lease = 7]
  show ?thesis using w1 w2 a l r by (simp add: held_defs)
qed

subsection \<open>Mount translation\<close>

lemma HasPrefix_iff: "HasPrefix s p \<longleftrightarrow> (\<exists>ys. s = p @ ys)"
  by (induction s p rule: HasPrefix.induct) auto

lemma Contains_iff: "Contains s substr \<longleftrightarrow> (\<exists>xs ys. s = xs @ substr @ ys)"
proof (induction s)
  case Nil
  then show ?case by simp
next
  case (Cons c s)
  show ?case
  proof
    assume "Contains (c # s) substr"
    then consider "HasPrefix (c # s) substr" | "Contains s substr" by auto
    then show "\<exists>xs ys. c # s = xs @ substr @ ys"
    proof cases
      case 1
      then obtain ys where "c # s = substr @ ys" using HasPrefix_iff by blast
      then have "c # s = [] @ substr @ ys" by simp
      then show ?thesis by blast
    next
      case 2
      with Cons.IH obtain xs ys where "s = xs @ substr @ ys" by blast
      then have "c # s = (c # xs) @ substr @ ys" by simp
      then show ?thesis by blast
    qed
  next
    assume "\<exists>xs ys. c # s = xs @ substr @ ys"
    then obtain xs ys where e: "c # s = xs @ substr @ ys" by blast
    show "Contains (c # s) substr"
    proof (cases xs)
      case Nil
      with e have "HasPrefix (c # s) substr" using HasPrefix_iff by fastforce
      then show ?thesis by simp
    next
      case (Cons x xs')
      with e have "s = xs' @ substr @ ys" by simp
      with Cons.IH have "Contains s substr" by blast
      then show ?thesis by simp
    qed
  qed
qed

lemma convertMount_specs_inj:
  "convertMount T_specs_Mount m = convertMount T_specs_Mount m' \<Longrightarrow> m = m'"
  by (cases m; cases m') (simp add: convertMount_def)

lemma docker_filtered:
  "HostMount hm \<in> set (getDockerExecution_Mounts ms) \<Longrightarrow> \<not> Contains (docker_Target hm) ''resolv.conf''"
  by (auto simp: getDockerExecution_Mounts_def convertMounts_def filterMounts_def convertMount_def)

text \<open>
  Claim C8: translating a neutral mount to the OCI shape keeps \<open>Type\<close>, \<open>Source\<close>,
  \<open>Destination\<close> and \<open>Options\<close> as they are (so the mount can be read back from its OCI
  form, and the low-level path translates every mount); translating to the daemon shape
  sets \<open>Target\<close> to \<open>Destination\<close> and does not depend on \<open>Options\<close>; and the mounts of
  the daemon path are those whose \<open>Destination\<close> does not contain "resolv.conf",
  translated in order, so none of them has a \<open>Target\<close> that contains it.
\<close>

theorem C8_mount_translation:
  "convertMount T_specs_Mount m =
     SpecsMount \<lparr>specs_Destination = Destination m, specs_Type = Type m,
                 specs_Source = Source m, specs_Options = Options m\<rparr>
   \<and> (convertMount T_specs_Mount m = convertMount T_specs_Mount m' \<longrightarrow> m = m')
   \<and> getContainerdExecution_Mounts ms = map (convertMount T_specs_Mount) ms
   \<and> convertMount T_docker_HostMount m =
       HostMount \<lparr>docker_Target = Destination m, docker_Source = Source m, docker_Type = Type m\<rparr>
   \<and> convertMount T_docker_HostMount (m\<lparr>Options := os\<rparr>) = convertMount T_docker_HostMount m
   \<and> getDockerExecution_Mounts ms =
       map (convertMount T_docker_HostMount)
         (filter (\<lambda>m. \<not> Contains (Destination m) ''resolv.conf'') ms)
   \<and> (\<forall>hm. HostMount hm \<in> set (getDockerExecution_Mounts ms) \<longrightarrow>
          \<not> Contains (docker_Target hm) ''resolv.conf'')"
  using convertMount_specs_inj [of m m'] docker_filtered [of _ ms]
  by (simp add: convertMount_def getContainerdExecution_Mounts_def getDockerExecution_Mounts_def
      convertMounts_def filterMounts_def)

theorem C8_mount_translation_witness:
  "convertMount T_specs_Mount (hd getMounts) =
     SpecsMount \<lparr>specs_Destination = ''/go/src'', specs_Type = ''bind'',
                 specs_Source = ''/local/path'', specs_Options = [''bind'']\<rparr>
   \<and> convertMount T_specs_Mount (hd getMounts) = convertMount T_specs_Mount (hd getMounts)
   \<and> getDockerExecution_Mounts (resolvMount # getMounts) =
       [HostMount \<lparr>docker_Target = ''/go/src'', docker_Source = ''/local/path'', docker_Type = ''bind''\<rparr>]
   \<and> HostMount \<lparr>docker_Target = ''/go/src'', docker_Source = ''/local/path'', docker_Type = ''bind''\<rparr>
        \<in> set (getDockerExecution_Mounts (resolvMount # getMounts))
   \<and> \<not> Contains ''/go/src'' ''resolv.conf''
   \<and> Contains (Destination resolvMount) ''resolv.conf''"
  using C8_mount_translation [of "hd getMounts" "hd getMounts" "resolvMount # getMounts" "[]"]
  by (simp add: getMounts_def resolvMount_def convertMount_def)

subsection \<open>Container names\<close>

lemma bitlen_big: "bitlen 9007199254740993 = 54"
  by (simp add: bitlen.simps)

lemma float64_big: "float64 9007199254740993 = 9007199254740992"
  by (simp add: float64_def bitlen_big Let_def)

lemma bitlen_min: "bitlen 9223372036854775808 = 64"
  by (simp add: bitlen.simps)

lemma float64_min: "float64 9223372036854775808 = 9223372036854775808"
  by (simp add: float64_def bitlen_min Let_def)

lemma Sprintf_d_samples:
  "Sprintf_d 9007199254740992 = ''9007199254740992''" "Sprintf_d 1 = ''1''" "Sprintf_d 3 = ''3''"
  by (simp_all add: Sprintf_d_def FormatUint.simps digitChar_def)

text \<open>
  Up to a magnitude of \<open>2 ^ 53\<close> the detour of \<open>abs\<close> through \<open>float64\<close> is exact.
\<close>

lemma float64_small: "n < 2 ^ 53 \<Longrightarrow> float64 n = n"
  by (simp add: float64_def)

lemma bitlen_2_53: "bitlen 9007199254740992 = 54"
  by (simp add: bitlen.simps)

lemma float64_2_53: "float64 9007199254740992 = 9007199254740992"
  by (simp add: float64_def bitlen_2_53 Let_def)

lemma abs_int64_exact:
  assumes "- (2 ^ 53) \<le> sint v"
  shows "sint (abs_int64 ovf v) = \<bar>sint v\<bar>"
proof (cases "0 \<le> sint v")
  case True
  then show ?thesis by (simp add: abs_int64_def)
next
  case False
  define n where "n = nat (- sint v)"
  have n: "n \<le> 2 ^ 53" "int n = - sint v" using assms False by (simp_all add: n_def)
  have f: "float64 n = n"
  proof (cases "n < 2 ^ 53")
    case True
    then show ?thesis by (rule float64_small)
  next
    case False
    with n have "n = 9007199254740992" by simp
    then show ?thesis by (simp add: float64_2_53)
  qed
  have "sint (word_of_nat n :: 64 word) = int n"
  proof -
    have "int n < 2 ^ 63" using n(1) by simp
    then show ?thesis
      by (simp add: signed_of_nat signed_take_bit_int_eq_self)
  qed
  with False f n show ?thesis by (simp add: abs_int64_def n_def Let_def)
qed

text \<open>
  Claim C5 says that each number in the generated name is the absolute value of the
  identity field. For the executor id \<open>-9007199254740993\<close> (that is \<open>-(2 ^ 53 + 1)\<close>),
  \<open>float64\<close> rounds to \<open>2 ^ 53\<close> and the name carries \<open>9007199254740992\<close>. For the least
  int64, \<open>abs\<close> returns whatever the platform's conversion of \<open>2 ^ 63\<close> gives.
\<close>

theorem C5_generateContainerId_rounds:
  "sint (- 9007199254740993 :: 64 word) = - 9007199254740993
   \<and> abs_int64 ovf (- 9007199254740993) = 9007199254740992
   \<and> generateContainerId RandomString ovf (ByCreatingTask opts_big)
       = ''chains-1-9007199254740992-3-'' @ RandomString 6
   \<and> abs_int64 ovf (- 9223372036854775808) = ovf"
proof -
  have a: "abs_int64 ovf (- 9007199254740993) = 9007199254740992"
    by (simp add: abs_int64_def float64_big)
  have b: "abs_int64 ovf (- 9223372036854775808) = ovf"
    by (simp add: abs_int64_def float64_min)
  have c: "abs_int64 ovf 1 = 1" "abs_int64 ovf 3 = 3"
    by (simp_all add: abs_int64_def)
  have "generateContainerId RandomString ovf (ByCreatingTask opts_big)
       = ''chains-1-9007199254740992-3-'' @ RandomString 6"
    by (simp add: generateContainerId_def ByCreatingTask_def opts_big_def opts_alpine_def a c
        Sprintf_d_samples randomSuffixLength_def)
  with a b show ?thesis by simp
qed

subsection \<open>The deadline label in the stats snapshot\<close>

text \<open>
  Claim C9 says that a deadline label that parses as RFC3339 and lies in the past counts
  as \<open>DeadlineExceeded\<close>. The loop calls \<open>time.Parse(deadline, time.RFC3339)\<close>: the label
  is taken as the layout and the layout constant as the value. So when the label is a
  past RFC3339 time and the call as written fails, the container counts under \<open>Errors\<close>
  and \<open>DeadlineExceeded\<close> stays as it is.
\<close>

theorem C9_deadline_parse_swapped:
  assumes "container_Labels cont = Inr labels" and "labels ''chains/deadline'' = Some deadline"
    and "Parse RFC3339 deadline = Inr t" and "t < Now"
    and "Parse deadline RFC3339 = Inl e"
  shows "countDeadline Parse Now cont stats = stats\<lparr>Errors := Errors stats + 1\<rparr>
         \<and> DeadlineExceeded (countDeadline Parse Now cont stats) = DeadlineExceeded stats"
  using assms by (simp add: countDeadline_def)

theorem C9_deadline_parse_swapped_witness:
  "Parse_sample RFC3339 ''2020-01-01T00:00:00Z'' = Inr 1577836800
   \<and> (1577836800 :: int) < 1793404800
   \<and> Parse_sample ''2020-01-01T00:00:00Z'' RFC3339 = Inl (ErrorString ''parsing time'')
   \<and> getContainerdStats Parse_sample 1793404800 client_deadline
       = (Stats_zero\<lparr>Running := 1, Errors := 1\<rparr>, None)"
proof -
  let ?labels = "\<lambda>k. if k = ''chains/deadline'' then Some ''2020-01-01T00:00:00Z'' else None"
  let ?cont = "container_ok\<lparr>container_Task := Inr task_ok, container_Labels := Inr ?labels\<rparr>"
  have a: "container_Labels ?cont = Inr ?labels" by simp
  have b: "?labels ''chains/deadline'' = Some ''2020-01-01T00:00:00Z''" by simp
  have c: "Parse_sample RFC3339 ''2020-01-01T00:00:00Z'' = Inr 1577836800"
    by (simp add: Parse_sample_def)
  have d: "(1577836800 :: int) < 1793404800" by simp
  have e: "Parse_sample ''2020-01-01T00:00:00Z'' RFC3339 = Inl (ErrorString ''parsing time'')"
    by (simp add: Parse_sample_def RFC3339_def)
  have s: "countStatus ?cont st = st\<lparr>Running := Running st + 1\<rparr>" for st
    by (simp add: countStatus_def container_ok_def task_ok_def)
  show ?thesis
    using C9_deadline_parse_swapped [OF a b c d e, of Stats_zero] c d e
    by (simp add: getContainerdStats_def client_deadline_def client_ok_def s Stats_zero_def)
qed

subsection \<open>What Wait, Start and Run leave alone\<close>

lemma Wait_cases:
  obtains r m b where
    "Wait E (g, h) = (r, g\<lparr>Method := m\<rparr>, closeFds (closeAfterWait g) (h\<lparr>bytes := b\<rparr>))"
proof (cases "started g")
  case False
  then have "Wait E (g, h) =
      (Return (Some (ErrorString ''dexec: not started'')), g\<lparr>Method := Method g\<rparr>,
       closeFds (closeAfterWait g) (h\<lparr>bytes := bytes h\<rparr>))"
    by (simp add: Wait_def Let_def)
  then show thesis by (rule that)
next
  case True
  obtain r m b where w: "wait E (client g) (Method g) (bytes h) = (r, m, b)"
    by (rule prod_cases3)
  show thesis
  proof (cases r)
    case Panic
    with True w have
      "Wait E (g, h) = (Panic, g\<lparr>Method := m\<rparr>, closeFds (closeAfterWait g) (h\<lparr>bytes := b\<rparr>))"
      by (simp add: Wait_def Let_def)
    then show thesis by (rule that)
  next
    case (Return x)
    obtain ec err where x: "x = (ec, err)" by (cases x)
    show thesis
    proof (cases err)
      case None
      with True w Return x have
        "Wait E (g, h) = (Return (if ec \<noteq> 0 then Some (ExitError ec []) else None),
           g\<lparr>Method := m\<rparr>, closeFds (closeAfterWait g) (h\<lparr>bytes := b\<rparr>))"
        by (simp add: Wait_def Let_def)
      then show thesis by (rule that)
    next
      case (Some e)
      with True w Return x have
        "Wait E (g, h) = (Return (Some e), g\<lparr>Method := m\<rparr>,
           closeFds (closeAfterWait g) (h\<lparr>bytes := b\<rparr>))"
        by (simp add: Wait_def Let_def)
      then show thesis by (rule that)
    qed
  qed
qed

lemma Wait_frame:
  "closeAfterWait (fst (snd (Wait E (g, h)))) = closeAfterWait g
   \<and> Stdin (fst (snd (Wait E (g, h)))) = Stdin g
   \<and> Stdout (fst (snd (Wait E (g, h)))) = Stdout g
   \<and> Stderr (fst (snd (Wait E (g, h)))) = Stderr g
   \<and> fresh (snd (snd (Wait E (g, h)))) = fresh h
   \<and> closeCalls (snd (snd (Wait E (g, h)))) w = closeCalls h w + count_list (closeAfterWait g) w"
  by (rule Wait_cases [of E g h]) (simp add: closeCalls_closeFds fresh_closeFds)

lemma Start_streams:
  "(Stdout g \<noteq> None \<longrightarrow> Stdout (fst (snd (Start E (g, h)))) = Stdout g)
   \<and> (Stderr g \<noteq> None \<longrightarrow> Stderr (fst (snd (Start E (g, h)))) = Stderr g)
   \<and> (Stdin g \<noteq> None \<longrightarrow> Stdin (fst (snd (Start E (g, h)))) = Stdin g)"
  by (cases rule: Start_cases [of E g h]) (auto simp: withDefaults_def orDefault_def)

lemma Run_frame:
  "closeAfterWait (fst (snd (Run E (g, h)))) = closeAfterWait g
   \<and> fresh (snd (snd (Run E (g, h)))) = fresh h
   \<and> (Stdout g \<noteq> None \<longrightarrow> Stdout (fst (snd (Run E (g, h)))) = Stdout g)
   \<and> (Stderr g \<noteq> None \<longrightarrow> Stderr (fst (snd (Run E (g, h)))) = Stderr g)
   \<and> (w \<notin> set (closeAfterWait g) \<longrightarrow> closeCalls (snd (snd (Run E (g, h)))) w = closeCalls h w)"
proof -
  obtain r g1 h1 where s: "Start E (g, h) = (r, g1, h1)" by (rule prod_cases3)
  have f: "closeAfterWait g1 = closeAfterWait g" "fresh h1 = fresh h" "closeCalls h1 = closeCalls h"
    using Start_frame [of E g h] s by simp_all
  have st: "Stdout g \<noteq> None \<longrightarrow> Stdout g1 = Stdout g" "Stderr g \<noteq> None \<longrightarrow> Stderr g1 = Stderr g"
    using Start_streams [of g E h] s by simp_all
  show ?thesis
  proof (cases "r = Return None")
    case True
    with s have "Run E (g, h) = Wait E (g1, h1)" by (simp add: Run_def)
    with f st show ?thesis using Wait_frame [of E g1 h1 w] by simp
  next
    case False
    then have "Run E (g, h) = (r, g1, h1)"
      using s by (cases r) (auto simp: Run_def split: option.split)
    with f st show ?thesis by simp
  qed
qed

subsection \<open>Output and CombinedOutput\<close>

lemma Output_rejects:
  "Stdout g \<noteq> None \<Longrightarrow>
     Output E (g, h) = (Return ([], Some (ErrorString ''dexec: Stdout already set'')), g, h)"
  by (simp add: Output_def)

lemma Output_unfold:
  "Stdout g = None \<Longrightarrow>
   Output E (g, h) =
     (case Run E (Output_cmd g h, Output_heap h) of
        (Panic, g1, h1) \<Rightarrow> (Panic, g1, h1)
      | (Return err, g1, h1) \<Rightarrow>
          (Return (bytes h1 (fresh h),
                   attachStderr (Stderr g = None) (bytes h1 (fresh h + 1)) err), g1, h1))"
  by (simp add: Output_def Let_def Output_cmd_def Output_heap_def attachStderr_def
      split: prod.split outcome.split option.split error.split)

lemma Output_runs:
  assumes "Stdout g = None" "Run E (Output_cmd g h, Output_heap h) = (r, g1, h1)"
  shows "Output E (g, h) =
     ((case r of Panic \<Rightarrow> Panic
       | Return err \<Rightarrow>
           Return (bytes h1 (fresh h), attachStderr (Stderr g = None) (bytes h1 (fresh h + 1)) err)),
      g1, h1)"
  by (cases r) (simp_all add: Output_unfold [OF assms(1)] assms(2))

lemma Output_frame:
  "closeAfterWait (fst (snd (Output E (g, h)))) = closeAfterWait g
   \<and> fresh h \<le> fresh (snd (snd (Output E (g, h))))
   \<and> (w \<notin> set (closeAfterWait g) \<longrightarrow> closeCalls (snd (snd (Output E (g, h)))) w = closeCalls h w)"
proof (cases "Stdout g = None")
  case False
  then show ?thesis by (simp add: Output_rejects)
next
  case True
  obtain r g1 h1 where rn: "Run E (Output_cmd g h, Output_heap h) = (r, g1, h1)"
    by (rule prod_cases3)
  show ?thesis
    using Run_frame [of E "Output_cmd g h" "Output_heap h" w] rn
    by (simp add: Output_runs [OF True rn] Output_cmd_def Output_heap_def)
qed

lemma Output_sinks:
  assumes "Stdout g = None"
  shows "Stdout (fst (snd (Output E (g, h)))) = Some (Buffer (fresh h))
   \<and> Stderr (fst (snd (Output E (g, h))))
       = (if Stderr g = None then Some (Buffer (fresh h + 1)) else Stderr g)"
proof -
  obtain r g1 h1 where rn: "Run E (Output_cmd g h, Output_heap h) = (r, g1, h1)"
    by (rule prod_cases3)
  show ?thesis
    using Run_frame [of E "Output_cmd g h" "Output_heap h" Discard] rn
    by (auto simp: Output_runs [OF assms rn] Output_cmd_def)
qed

lemma CombinedOutput_frame:
  "closeAfterWait (fst (snd (CombinedOutput E (g, h)))) = closeAfterWait g
   \<and> fresh h \<le> fresh (snd (snd (CombinedOutput E (g, h))))
   \<and> (w \<notin> set (closeAfterWait g) \<longrightarrow>
        closeCalls (snd (snd (CombinedOutput E (g, h)))) w = closeCalls h w)"
proof (cases "Stdout g = None \<and> Stderr g = None")
  case False
  then show ?thesis by (auto simp: CombinedOutput_def)
next
  case True
  let ?g0 = "g\<lparr>Stdout := Some (Buffer (fresh h)), Stderr := Some (Buffer (fresh h))\<rparr>"
  let ?h0 = "h\<lparr>bytes := (bytes h)(fresh h := []), fresh := fresh h + 1\<rparr>"
  obtain r g1 h1 where rn: "Run E (?g0, ?h0) = (r, g1, h1)" by (rule prod_cases3)
  have "snd (CombinedOutput E (g, h)) = (g1, h1)"
    using True rn by (cases r) (simp_all add: CombinedOutput_def Let_def)
  then show ?thesis
    using Run_frame [of E ?g0 ?h0 w] rn by simp
qed

text \<open>
  Claim C6: \<open>Output\<close> rejects a command whose \<open>Stdout\<close> is set. Otherwise it puts a new
  buffer in \<open>Stdout\<close> and, when \<open>Stderr\<close> was nil, another new buffer in \<open>Stderr\<close> (a
  \<open>Stderr\<close> the caller set stays), runs the command with them, and returns the bytes of
  the stdout buffer together with the error of the run; when stderr was captured and that
  error is an \<open>ExitError\<close>, its \<open>Stderr\<close> field holds the bytes of the stderr buffer, and
  in every other case the error is the one the run returned.
\<close>

theorem C6_Output:
  "(Stdout g \<noteq> None \<longrightarrow>
      Output E (g, h) = (Return ([], Some (ErrorString ''dexec: Stdout already set'')), g, h))
   \<and> (Stdout g = None \<longrightarrow>
        Stdout (fst (snd (Output E (g, h)))) = Some (Buffer (fresh h))
        \<and> Stderr (fst (snd (Output E (g, h))))
            = (if Stderr g = None then Some (Buffer (fresh h + 1)) else Stderr g)
        \<and> (Run E (Output_cmd g h, Output_heap h) = (Return err, g1, h1) \<longrightarrow>
             Output E (g, h) =
               (Return (bytes h1 (fresh h),
                        attachStderr (Stderr g = None) (bytes h1 (fresh h + 1)) err), g1, h1)))
   \<and> attachStderr True captured (Some (ExitError ec s)) = Some (ExitError ec captured)
   \<and> attachStderr False captured err' = err'
   \<and> ((\<forall>ec s. err' \<noteq> Some (ExitError ec s)) \<longrightarrow> attachStderr c captured err' = err')"
proof -
  have a: "attachStderr False captured err' = err'"
    by (simp add: attachStderr_def split: option.split error.split)
  have b: "attachStderr c captured err' = err'" if "\<forall>ec s. err' \<noteq> Some (ExitError ec s)"
    using that by (simp add: attachStderr_def split: option.split error.split)
  have c: "Output E (g, h) =
               (Return (bytes h1 (fresh h),
                        attachStderr (Stderr g = None) (bytes h1 (fresh h + 1)) err), g1, h1)"
    if "Stdout g = None" "Run E (Output_cmd g h, Output_heap h) = (Return err, g1, h1)"
    using Output_runs [OF that] by simp
  show ?thesis
    using a b c Output_rejects [of g E h] Output_sinks [of g E h]
    by (simp add: attachStderr_def)
qed

lemmas run_defs = Output_def Run_def Start_def Wait_def Let_def stub_defs

theorem C6_Output_witness:
  "Stdout cmd_stdout_set \<noteq> None
   \<and> fst (Output (stub_exits 1) (cmd_stdout_set, heap0))
       = Return ([], Some (ErrorString ''dexec: Stdout already set''))
   \<and> Stdout cmd_sh = None \<and> Stderr cmd_sh = None
   \<and> fst (Run (stub_exits 1) (Output_cmd cmd_sh heap0, Output_heap heap0))
       = Return (Some (ExitError 1 []))
   \<and> fst (Output (stub_exits 1) (cmd_sh, heap0)) = Return (''out'', Some (ExitError 1 ''boom''))
   \<and> Stdout cmd_stderr_set = None \<and> Stderr cmd_stderr_set \<noteq> None
   \<and> fst (Output (stub_exits 1) (cmd_stderr_set, heap0)) = Return (''out'', Some (ExitError 1 []))
   \<and> fst (Output (stub_exits 0) (cmd_sh, heap0)) = Return (''out'', None)"
proof -
  have e: "fst (Run (stub_exits 1) (Output_cmd cmd_sh heap0, Output_heap heap0))
       = Return (Some (ExitError 1 []))"
    by (simp add: Output_cmd_def Output_heap_def run_defs)
  obtain g1 h1 where r: "Run (stub_exits 1) (Output_cmd cmd_sh heap0, Output_heap heap0)
       = (Return (Some (ExitError 1 [])), g1, h1)"
    using e by (metis fst_conv prod_cases3)
  have h1: "h1 = snd (snd (Run (stub_exits 1) (Output_cmd cmd_sh heap0, Output_heap heap0)))"
    using r by simp
  have b: "bytes h1 0 = ''out''" "bytes h1 1 = ''boom''"
    unfolding h1 by (simp_all add: Output_cmd_def Output_heap_def run_defs)
  have n: "Stdout cmd_sh = None" "Stderr cmd_sh = None" "fresh heap0 = 0"
    by (simp_all add: stub_defs)
  have o: "fst (Output (stub_exits 1) (cmd_stdout_set, heap0))
       = Return ([], Some (ErrorString ''dexec: Stdout already set''))"
    "fst (Output (stub_exits 1) (cmd_stderr_set, heap0)) = Return (''out'', Some (ExitError 1 []))"
    "fst (Output (stub_exits 0) (cmd_sh, heap0)) = Return (''out'', None)"
    "Stdout cmd_stdout_set \<noteq> None" "Stdout cmd_stderr_set = None" "Stderr cmd_stderr_set \<noteq> None"
    by (simp_all add: cmd_stdout_set_def cmd_stderr_set_def run_defs)
  show ?thesis
    using C6_Output [where g = cmd_sh and E = "stub_exits 1" and h = heap0
        and err = "Some (ExitError 1 [])" and ?g1.0 = g1 and ?h1.0 = h1
        and captured = "''boom''" and ec = 1 and s = "[]"] r e b n o
    by simp
qed

subsection \<open>Pipes and closers\<close>

lemma count_list_distinct:
  "distinct l \<Longrightarrow> count_list l w = (if w \<in> set l then 1 else 0)"
  by (induction l) auto

lemma StdoutPipe_ok:
  "Stdout g = None \<Longrightarrow>
     StdoutPipe (g, h) =
       (Inr (PipeReader (fresh h)),
        g\<lparr>Stdout := Some (PipeWriter (fresh h)),
          closeAfterWait := closeAfterWait g @ [PipeWriter (fresh h)]\<rparr>,
        h\<lparr>fresh := fresh h + 1\<rparr>)"
  by (simp add: StdoutPipe_def Let_def)

lemma StderrPipe_ok:
  "Stderr g = None \<Longrightarrow>
     StderrPipe (g, h) =
       (Inr (PipeReader (fresh h)),
        g\<lparr>Stderr := Some (PipeWriter (fresh h)),
          closeAfterWait := closeAfterWait g @ [PipeWriter (fresh h)]\<rparr>,
        h\<lparr>fresh := fresh h + 1\<rparr>)"
  by (simp add: StderrPipe_def Let_def)

lemma StdinPipe_ok:
  "Stdin g = None \<Longrightarrow>
     StdinPipe (g, h) =
       (Inr (PipeWriter (fresh h)), g\<lparr>Stdin := Some (PipeReader (fresh h))\<rparr>,
        h\<lparr>fresh := fresh h + 1\<rparr>)"
  by (simp add: StdinPipe_def Let_def)

lemma use_outside:
  assumes "outside w s"
  shows "outside w (use E a s) \<and> closeCalls (snd (use E a s)) w = closeCalls (snd s) w"
proof -
  obtain g h where s: "s = (g, h)" by (cases s)
  from assms s have o: "w \<notin> set (closeAfterWait g)" "\<forall>p. w = PipeWriter p \<longrightarrow> p < fresh h"
    by (simp_all add: outside_def)
  then have c0: "count_list (closeAfterWait g) w = 0" by simp
  show ?thesis
  proof (cases a)
    case Call_Start
    with o show ?thesis using Start_frame [of E g h] by (simp add: s outside_def)
  next
    case Call_Wait
    with o c0 show ?thesis using Wait_frame [of E g h w] by (simp add: s outside_def)
  next
    case Call_Run
    with o show ?thesis using Run_frame [of E g h w] by (simp add: s outside_def)
  next
    case Call_Output
    with o show ?thesis using Output_frame [of E g h w] by (auto simp: s outside_def)
  next
    case Call_CombinedOutput
    with o show ?thesis using CombinedOutput_frame [of E g h w] by (auto simp: s outside_def)
  next
    case Call_StdinPipe
    with o show ?thesis by (auto simp: s outside_def StdinPipe_def Let_def)
  next
    case Call_StdoutPipe
    with o show ?thesis by (auto simp: s outside_def StdoutPipe_def Let_def)
  next
    case Call_StderrPipe
    with o show ?thesis by (auto simp: s outside_def StderrPipe_def Let_def)
  next
    case Call_Kill
    with o show ?thesis by (simp add: s outside_def Kill_def split: prod.split)
  next
    case Call_Cleanup
    with o show ?thesis by (simp add: s outside_def Cleanup_def split: prod.split)
  next
    case (Call_SetDir d)
    with o show ?thesis by (simp add: s outside_def SetDir_def)
  next
    case (Call_SetStderr x)
    with o show ?thesis by (simp add: s outside_def SetStderr_def)
  next
    case (Assign_Stdin x)
    with o show ?thesis by (simp add: s outside_def)
  next
    case (Assign_Stdout x)
    with o show ?thesis by (simp add: s outside_def)
  next
    case (Assign_Env x)
    with o show ?thesis by (simp add: s outside_def)
  qed
qed

lemma uses_outside:
  "outside w s \<Longrightarrow>
     outside w (uses E as s) \<and> closeCalls (snd (uses E as s)) w = closeCalls (snd s) w"
proof (induction as arbitrary: s)
  case Nil
  then show ?case by simp
next
  case (Cons a as)
  from Cons.prems have 1: "outside w (use E a s)"
    and 2: "closeCalls (snd (use E a s)) w = closeCalls (snd s) w"
    using use_outside [of w s E a] by simp_all
  from Cons.IH [OF 1] 2 show ?case by simp
qed

lemma closers_ok_extend:
  assumes "closers_ok (g, h)" "closeAfterWait g' = closeAfterWait g" "fresh h \<le> fresh h'"
  shows "closers_ok (g', h')"
  using assms by (fastforce simp: closers_ok_def)

lemma closers_ok_pipe:
  assumes "closers_ok (g, h)" "closeAfterWait g' = closeAfterWait g @ [PipeWriter (fresh h)]"
    "fresh h' = fresh h + 1"
  shows "closers_ok (g', h')"
  using assms by (fastforce simp: closers_ok_def)

lemma use_closers_ok:
  assumes "closers_ok s"
  shows "closers_ok (use E a s)"
proof -
  obtain g h where s: "s = (g, h)" by (cases s)
  obtain g' h' where u: "use E a s = (g', h')" by (cases "use E a s")
  have g': "g' = fst (use E a (g, h))" and h': "h' = snd (use E a (g, h))" using u s by simp_all
  note ok = assms [unfolded s]
  have "closers_ok (g', h')"
  proof (cases a)
    case Call_Start
    show ?thesis
      by (rule closers_ok_extend [OF ok]) (simp_all add: g' h' Call_Start Start_frame)
  next
    case Call_Wait
    show ?thesis
      by (rule closers_ok_extend [OF ok]) (simp_all add: g' h' Call_Wait Wait_frame)
  next
    case Call_Run
    show ?thesis
      by (rule closers_ok_extend [OF ok]) (simp_all add: g' h' Call_Run Run_frame)
  next
    case Call_Output
    show ?thesis
      by (rule closers_ok_extend [OF ok]) (simp_all add: g' h' Call_Output Output_frame)
  next
    case Call_CombinedOutput
    show ?thesis
      by (rule closers_ok_extend [OF ok])
        (simp_all add: g' h' Call_CombinedOutput CombinedOutput_frame)
  next
    case Call_StdinPipe
    show ?thesis
      by (rule closers_ok_extend [OF ok]) (simp_all add: g' h' Call_StdinPipe StdinPipe_def Let_def)
  next
    case Call_StdoutPipe
    show ?thesis
    proof (cases "Stdout g = None")
      case True
      show ?thesis
        by (rule closers_ok_pipe [OF ok]) (simp_all add: g' h' Call_StdoutPipe StdoutPipe_ok True)
    next
      case False
      show ?thesis
        by (rule closers_ok_extend [OF ok]) (use False in \<open>simp_all add: g' h' Call_StdoutPipe StdoutPipe_def\<close>)
    qed
  next
    case Call_StderrPipe
    show ?thesis
    proof (cases "Stderr g = None")
      case True
      show ?thesis
        by (rule closers_ok_pipe [OF ok]) (simp_all add: g' h' Call_StderrPipe StderrPipe_ok True)
    next
      case False
      show ?thesis
        by (rule closers_ok_extend [OF ok]) (use False in \<open>simp_all add: g' h' Call_StderrPipe StderrPipe_def\<close>)
    qed
  next
    case Call_Kill
    show ?thesis
      by (rule closers_ok_extend [OF ok]) (simp_all add: g' h' Call_Kill Kill_def split: prod.split)
  next
    case Call_Cleanup
    show ?thesis
      by (rule closers_ok_extend [OF ok]) (simp_all add: g' h' Call_Cleanup Cleanup_def split: prod.split)
  next
    case (Call_SetDir d)
    show ?thesis
      by (rule closers_ok_extend [OF ok]) (simp_all add: g' h' Call_SetDir SetDir_def)
  next
    case (Call_SetStderr x)
    show ?thesis
      by (rule closers_ok_extend [OF ok]) (simp_all add: g' h' Call_SetStderr SetStderr_def)
  next
    case (Assign_Stdin x)
    show ?thesis
      by (rule closers_ok_extend [OF ok]) (simp_all add: g' h' Assign_Stdin)
  next
    case (Assign_Stdout x)
    show ?thesis
      by (rule closers_ok_extend [OF ok]) (simp_all add: g' h' Assign_Stdout)
  next
    case (Assign_Env x)
    show ?thesis
      by (rule closers_ok_extend [OF ok]) (simp_all add: g' h' Assign_Env)
  qed
  then show ?thesis by (simp add: u)
qed

lemma uses_closers_ok: "closers_ok s \<Longrightarrow> closers_ok (uses E as s)"
  by (induction as arbitrary: s) (simp_all add: use_closers_ok)

lemma closers_ok_Command: "closers_ok (Command c m name arg, h)"
  by (simp add: closers_ok_def Command_def)

lemma outside_not_pipe:
  "closers_ok s \<Longrightarrow> \<forall>p. w \<noteq> PipeWriter p \<Longrightarrow> outside w s"
  by (auto simp: closers_ok_def outside_def)

lemma outside_StdinPipe:
  assumes "closers_ok (g, h)" "Stdin g = None"
  shows "outside (PipeWriter (fresh h)) (snd (StdinPipe (g, h)))"
  using assms by (auto simp: closers_ok_def outside_def StdinPipe_ok)

text \<open>
  Claim C7: \<open>StdoutPipe\<close> and \<open>StderrPipe\<close> append the writer end of the pipe they make
  to \<open>closeAfterWait\<close>; the closers stay pipe writers of the library, each listed once,
  through every sequence of uses; a call of \<open>Wait\<close>, whatever it returns, calls \<open>Close\<close>
  exactly once on each of them and on nothing else. The writer that \<open>StdinPipe\<close> returns
  is not added to \<open>closeAfterWait\<close>, neither by \<open>StdinPipe\<close> nor by any later use of the
  command, and the library never calls \<open>Close\<close> on it; the same holds of every writer that
  is not a pipe writer, so of every sink the caller brought.
\<close>

theorem C7_closers:
  assumes "closers_ok (g, h)"
  shows "(Stdout g = None \<longrightarrow>
            StdoutPipe (g, h) =
              (Inr (PipeReader (fresh h)),
               g\<lparr>Stdout := Some (PipeWriter (fresh h)),
                 closeAfterWait := closeAfterWait g @ [PipeWriter (fresh h)]\<rparr>,
               h\<lparr>fresh := fresh h + 1\<rparr>))
         \<and> (Stderr g = None \<longrightarrow>
            StderrPipe (g, h) =
              (Inr (PipeReader (fresh h)),
               g\<lparr>Stderr := Some (PipeWriter (fresh h)),
                 closeAfterWait := closeAfterWait g @ [PipeWriter (fresh h)]\<rparr>,
               h\<lparr>fresh := fresh h + 1\<rparr>))
         \<and> closers_ok (uses E as (g, h))
         \<and> (\<forall>w. closeCalls (snd (snd (Wait E (g, h)))) w
                  = closeCalls h w + (if w \<in> set (closeAfterWait g) then 1 else 0))
         \<and> (Stdin g = None \<longrightarrow>
              fst (StdinPipe (g, h)) = Inr (PipeWriter (fresh h))
              \<and> closeAfterWait (fst (snd (StdinPipe (g, h)))) = closeAfterWait g
              \<and> PipeWriter (fresh h) \<notin> set (closeAfterWait (fst (uses E as (snd (StdinPipe (g, h))))))
              \<and> closeCalls (snd (uses E as (snd (StdinPipe (g, h))))) (PipeWriter (fresh h))
                  = closeCalls h (PipeWriter (fresh h)))
         \<and> ((\<forall>p. w' \<noteq> PipeWriter p) \<longrightarrow>
              w' \<notin> set (closeAfterWait (fst (uses E as (g, h))))
              \<and> closeCalls (snd (uses E as (g, h))) w' = closeCalls h w')"
proof -
  from assms have d: "distinct (closeAfterWait g)" by (simp add: closers_ok_def)
  have wait: "closeCalls (snd (snd (Wait E (g, h)))) w
                  = closeCalls h w + (if w \<in> set (closeAfterWait g) then 1 else 0)" for w
    using Wait_frame [of E g h w] count_list_distinct [OF d, of w] by simp
  have stdin: "fst (StdinPipe (g, h)) = Inr (PipeWriter (fresh h))
              \<and> closeAfterWait (fst (snd (StdinPipe (g, h)))) = closeAfterWait g
              \<and> PipeWriter (fresh h) \<notin> set (closeAfterWait (fst (uses E as (snd (StdinPipe (g, h))))))
              \<and> closeCalls (snd (uses E as (snd (StdinPipe (g, h))))) (PipeWriter (fresh h))
                  = closeCalls h (PipeWriter (fresh h))"
    if n: "Stdin g = None"
  proof -
    have o: "outside (PipeWriter (fresh h)) (snd (StdinPipe (g, h)))"
      using assms n by (rule outside_StdinPipe)
    from uses_outside [OF o, of E as] show ?thesis
      by (simp add: outside_def StdinPipe_ok [OF n])
  qed
  have caller: "w' \<notin> set (closeAfterWait (fst (uses E as (g, h))))
              \<and> closeCalls (snd (uses E as (g, h))) w' = closeCalls h w'"
    if np: "\<forall>p. w' \<noteq> PipeWriter p"
  proof -
    have o: "outside w' (g, h)" using assms np by (rule outside_not_pipe)
    from uses_outside [OF o, of E as] show ?thesis by (simp add: outside_def)
  qed
  show ?thesis
    using wait stdin caller uses_closers_ok [OF assms, of E as]
      StdoutPipe_ok [of g h] StderrPipe_ok [of g h]
    by simp
qed


lemmas pipe_defs = StdoutPipe_def StderrPipe_def StdinPipe_def Close_def

theorem C7_closers_witness:
  "closers_ok (cmd_sh, heap0)
   \<and> Stdin cmd_sh = None \<and> Stdout cmd_sh = None \<and> Stderr cmd_sh = None
   \<and> closeAfterWait (fst (uses (stub_exits 0) [Call_StdoutPipe, Call_StderrPipe] (cmd_sh, heap0)))
       = [PipeWriter 0, PipeWriter 1]
   \<and> closeCalls (snd (uses (stub_exits 0) [Call_StdoutPipe, Call_StderrPipe, Call_Run] (cmd_sh, heap0)))
        (PipeWriter 0) = 1
   \<and> closeCalls (snd (uses (stub_exits 0) [Call_StdoutPipe, Call_StderrPipe, Call_Run] (cmd_sh, heap0)))
        (PipeWriter 1) = 1
   \<and> fst (StdinPipe (cmd_sh, heap0)) = Inr (PipeWriter 0)
   \<and> closeCalls (snd (uses (stub_exits 0) [Call_StdoutPipe, Call_Run] (snd (StdinPipe (cmd_sh, heap0)))))
        (PipeWriter 0) = 0
   \<and> closeCalls (snd (uses (stub_exits 0) [Call_StdoutPipe, Call_Run] (snd (StdinPipe (cmd_sh, heap0)))))
        (PipeWriter 1) = 1
   \<and> closeCalls (snd (uses (stub_exits 0) [Assign_Stdout (Some (CallerWriter 5)), Call_Run] (cmd_sh, heap0)))
        (CallerWriter 5) = 0"
proof -
  have ok: "closers_ok (cmd_sh, heap0)"
    unfolding cmd_sh_def by (rule closers_ok_Command)
  have n: "Stdin cmd_sh = None" "Stdout cmd_sh = None" "Stderr cmd_sh = None"
    "fresh heap0 = 0" "closeCalls heap0 (PipeWriter 0) = 0" "closeCalls heap0 (CallerWriter 5) = 0"
    by (simp_all add: stub_defs)
  have a: "closeAfterWait (fst (uses (stub_exits 0) [Call_StdoutPipe, Call_StderrPipe] (cmd_sh, heap0)))
       = [PipeWriter 0, PipeWriter 1]"
    by (simp add: pipe_defs run_defs)
  have b: "closeCalls (snd (uses (stub_exits 0) [Call_StdoutPipe, Call_StderrPipe, Call_Run] (cmd_sh, heap0)))
        (PipeWriter 0) = 1"
    "closeCalls (snd (uses (stub_exits 0) [Call_StdoutPipe, Call_StderrPipe, Call_Run] (cmd_sh, heap0)))
        (PipeWriter 1) = 1"
    by (simp_all add: pipe_defs run_defs)
  have c: "closeCalls (snd (uses (stub_exits 0) [Call_StdoutPipe, Call_Run] (snd (StdinPipe (cmd_sh, heap0)))))
        (PipeWriter 1) = 1"
    by (simp add: pipe_defs run_defs)
  note w1 = C7_closers [OF ok, where E = "stub_exits 0" and as = "[Call_StdoutPipe, Call_Run]"
      and w' = "CallerWriter 5"]
  note w2 = C7_closers [OF ok, where E = "stub_exits 0"
      and as = "[Assign_Stdout (Some (CallerWriter 5)), Call_Run]" and w' = "CallerWriter 5"]
  show ?thesis
    using w1 w2 ok n a b c by simp
qed

end
